theory Spec2Isabelle
  imports Complex_Main
begin

section \<open>Conversation analytics: the embedded program\<close>

text \<open>
  The definitions below follow \<^verbatim>\<open>analysis_rules.py\<close> and \<^verbatim>\<open>behavior_digest.py\<close>.
  Python's unbounded integers are \<^typ>\<open>int\<close>, \<^verbatim>\<open>Optional\<close> values are options, raised
  exceptions are the left summand of a sum type.
\<close>

subsection \<open>Nearest-rank percentile (\<^verbatim>\<open>_pct\<close>) and the digest's median and p90\<close>

text \<open>
  Python's \<^verbatim>\<open>round\<close> with one argument rounds to the nearest integer and resolves a tie
  towards the even neighbour.  The source applies it to the double \<^verbatim>\<open>(len(vals) - 1) * p\<close>
  with \<^verbatim>\<open>p\<close> one of the literals \<^verbatim>\<open>0.5\<close> and \<^verbatim>\<open>0.9\<close>.  The product with \<^verbatim>\<open>0.5\<close> is exact.
  The double nearest to \<^verbatim>\<open>0.9\<close> exceeds nine tenths by less than a quarter of its unit in
  the last place, so for every list length below \<^verbatim>\<open>2 ** 50\<close> the rounded product is a tie
  exactly when the rational product is one and lies on the same side of the tie otherwise.
  The percentage is therefore a rational number here and the arithmetic is exact.
\<close>

definition py_round :: "rat \<Rightarrow> int" where
  "py_round x =
     (let f = \<lfloor>x\<rfloor>; d = x - of_int f
      in if d < 1 / 2 then f
         else if 1 / 2 < d then f + 1
         else if even f then f else f + 1)"

definition pct :: "int list \<Rightarrow> rat \<Rightarrow> int option" where
  "pct values p =
     (if values = [] then None
      else let vals = sort values;
               k = max 0 (min (int (length vals) - 1)
                              (py_round (of_int (int (length vals) - 1) * p)))
           in Some (vals ! nat k))"

text \<open>
  \<^verbatim>\<open>behavior_digest.main\<close> does not call \<^verbatim>\<open>_pct\<close>: it indexes the sorted sample at
  \<^verbatim>\<open>len(frs) // 2\<close> and at \<^verbatim>\<open>int(len(frs) * 0.9)\<close>.  By the same bound on the double
  \<^verbatim>\<open>0.9\<close>, the truncated double product is the floor of the rational one.
\<close>

definition digest_median :: "int list \<Rightarrow> int option" where
  "digest_median first_reply_values =
     (let frs = sort first_reply_values
      in if frs = [] then None else Some (frs ! (length frs div 2)))"

definition digest_p90 :: "int list \<Rightarrow> int option" where
  "digest_p90 first_reply_values =
     (let frs = sort first_reply_values
      in if frs = [] then None
         else Some (frs ! nat \<lfloor>of_nat (length frs) * (9 / 10 :: rat)\<rfloor>))"

subsection \<open>Business clock (\<^verbatim>\<open>_business_seconds_between\<close>)\<close>

text \<open>
  A wall-clock reading is the number of microseconds since 1970-01-01 00:00:00 shown by a
  calendar and a clock; a \<^verbatim>\<open>time\<close> of day is a number of microseconds since midnight.  The
  days are numbered from 1970-01-01, so \<^verbatim>\<open>date.min\<close> (0001-01-01) is day \<open>-719162\<close> and
  \<^verbatim>\<open>date.max\<close> (9999-12-31) is day \<open>2932896\<close>.
\<close>

type_synonym datetime = int

type_synonym time_of_day = int

definition US_PER_SEC :: int where
  "US_PER_SEC = 1000000"

definition US_PER_DAY :: int where
  "US_PER_DAY = 86400 * 1000000"

definition valid_time :: "time_of_day \<Rightarrow> bool" where
  "valid_time t = (0 \<le> t \<and> t < US_PER_DAY)"

definition date_of :: "datetime \<Rightarrow> int" where
  "date_of dt = dt div US_PER_DAY"

definition combine :: "int \<Rightarrow> time_of_day \<Rightarrow> datetime" where
  "combine day t = day * US_PER_DAY + t"

text \<open>\<^verbatim>\<open>date.max\<close>, \<^verbatim>\<open>datetime.min\<close> and \<^verbatim>\<open>datetime.max\<close>.\<close>

definition LAST_DAY :: int where
  "LAST_DAY = 2932896"

definition DATETIME_MIN :: datetime where
  "DATETIME_MIN = - 62135596800 * 1000000"

definition DATETIME_MAX :: datetime where
  "DATETIME_MAX = (LAST_DAY + 1) * US_PER_DAY - 1"

definition in_range :: "datetime \<Rightarrow> bool" where
  "in_range t = (DATETIME_MIN \<le> t \<and> t \<le> DATETIME_MAX)"

text \<open>
  A \<^verbatim>\<open>datetime\<close> object as the function receives it: naive, or aware, and then with its
  UTC offset at that moment and the identity of its \<^verbatim>\<open>tzinfo\<close> object.  The configured zone
  is a \<^verbatim>\<open>ZoneInfo\<close>: its identity and its UTC offset at each UTC reading.
\<close>

datatype py_datetime = Naive datetime | Aware datetime int nat

record zone =
  zone_id :: nat
  utcoffset_at :: "datetime \<Rightarrow> int"

datatype error = ValueError | OverflowError | TypeError

text \<open>
  \<^verbatim>\<open>a < b\<close> on two datetimes: two naive ones compare by their readings, two aware ones with
  the same \<^verbatim>\<open>tzinfo\<close> object too, two aware ones with different \<^verbatim>\<open>tzinfo\<close> objects by their
  UTC readings, and a naive one with an aware one raises \<^verbatim>\<open>TypeError\<close>.
\<close>

fun dt_less :: "py_datetime \<Rightarrow> py_datetime \<Rightarrow> error + bool" where
  "dt_less (Naive a) (Naive b) = Inr (a < b)"
| "dt_less (Aware a oa ia) (Aware b ob ib) =
     Inr (if ia = ib then a < b else a - oa < b - ob)"
| "dt_less (Naive a) (Aware b ob ib) = Inl TypeError"
| "dt_less (Aware a oa ia) (Naive b) = Inl TypeError"

text \<open>
  \<^verbatim>\<open>_to_tz\<close>, returning the wall-clock reading in the zone.  \<^verbatim>\<open>replace(tzinfo=tz)\<close> keeps the
  reading of a naive datetime.  \<^verbatim>\<open>astimezone(tz)\<close> returns the datetime itself when it
  already carries \<^verbatim>\<open>tz\<close>; otherwise it subtracts the datetime's own offset and lets the zone
  add its offset, and either step raises \<^verbatim>\<open>OverflowError\<close> when it leaves the range of
  \<^verbatim>\<open>datetime\<close>.
\<close>

fun to_tz :: "py_datetime \<Rightarrow> zone \<Rightarrow> error + datetime" where
  "to_tz (Naive w) tz = Inr w"
| "to_tz (Aware w off i) tz =
     (if i = zone_id tz then Inr w
      else let utc = w - off
           in if \<not> in_range utc then Inl OverflowError
              else let local = utc + utcoffset_at tz utc
                   in if in_range local then Inr local else Inl OverflowError)"

text \<open>\<^verbatim>\<open>int(td.total_seconds())\<close> of a positive difference: its whole seconds.\<close>

definition whole_seconds :: "int \<Rightarrow> int" where
  "whole_seconds td = td div US_PER_SEC"

text \<open>
  The \<^verbatim>\<open>while\<close> loop.  Inside it every datetime carries the zone, so \<^verbatim>\<open>max\<close>, \<^verbatim>\<open>min\<close>, \<^verbatim>\<open>>\<close>
  and the subtraction work on the readings.  \<^verbatim>\<open>cur_day + timedelta(days=1)\<close> runs at the end
  of every iteration, the last one too, and raises \<^verbatim>\<open>OverflowError\<close> when the next day
  would lie after \<^verbatim>\<open>date.max\<close>.
\<close>

function day_loop ::
  "datetime \<Rightarrow> datetime \<Rightarrow> time_of_day \<Rightarrow> time_of_day \<Rightarrow> int \<Rightarrow> int \<Rightarrow> int \<Rightarrow> error + int" where
  "day_loop s e work_start work_end cur_day last_day total_sec =
     (if cur_day \<le> last_day then
        (let window_start = combine cur_day work_start;
             window_end = combine cur_day work_end;
             seg_start = max s window_start;
             seg_end = min e window_end;
             total_sec' = (if seg_end > seg_start
                       then total_sec + whole_seconds (seg_end - seg_start) else total_sec)
         in if cur_day + 1 > LAST_DAY then Inl OverflowError
            else day_loop s e work_start work_end (cur_day + 1) last_day total_sec')
      else Inr total_sec)"
  by pat_completeness auto
termination
  by (relation "measure (\<lambda>(s, e, ws, we, cur_day, last_day, total_sec). nat (last_day + 1 - cur_day))")
     auto

declare day_loop.simps [simp del]

definition business_seconds_between ::
  "py_datetime \<Rightarrow> py_datetime \<Rightarrow> zone \<Rightarrow> time_of_day \<Rightarrow> time_of_day \<Rightarrow> error + int option" where
  "business_seconds_between start_dt end_dt tz work_start work_end =
     (case dt_less end_dt start_dt of
        Inl err \<Rightarrow> Inl err
      | Inr True \<Rightarrow> Inr None
      | Inr False \<Rightarrow>
         (case to_tz start_dt tz of
            Inl err \<Rightarrow> Inl err
          | Inr s \<Rightarrow>
             (case to_tz end_dt tz of
                Inl err \<Rightarrow> Inl err
              | Inr e \<Rightarrow>
                 if work_end \<le> work_start then Inl ValueError
                 else (case day_loop s e work_start work_end (date_of s) (date_of e) 0 of
                         Inl err \<Rightarrow> Inl err
                       | Inr total_sec \<Rightarrow> Inr (Some total_sec)))))"

text \<open>
  The sentence of the specification, for comparison with the loop: the overlap of the span
  with one day's window, in whole seconds, and nothing when the overlap is not positive.
\<close>

definition overlap_seconds ::
  "datetime \<Rightarrow> datetime \<Rightarrow> time_of_day \<Rightarrow> time_of_day \<Rightarrow> int \<Rightarrow> int" where
  "overlap_seconds s e work_start work_end day =
     (let a = max s (combine day work_start); b = min e (combine day work_end)
      in if a < b then (b - a) div US_PER_SEC else 0)"

subsection \<open>Business clock: names for statements and a concrete zone\<close>

text \<open>A zone three hours ahead of UTC all year.\<close>

definition demo_zone :: zone where
  "demo_zone = \<lparr>zone_id = 0, utcoffset_at = (\<lambda>utc. 10800000000)\<rparr>"

text \<open>
  The two datetimes can be compared, \<open>end\<close> is not before \<open>start\<close>, and both convert to the
  zone, where they read \<open>s\<close> and \<open>e\<close>.
\<close>

definition span_in_zone ::
  "py_datetime \<Rightarrow> py_datetime \<Rightarrow> zone \<Rightarrow> datetime \<Rightarrow> datetime \<Rightarrow> bool" where
  "span_in_zone start_dt end_dt tz s e =
     (dt_less end_dt start_dt = Inr False \<and> to_tz start_dt tz = Inr s \<and> to_tz end_dt tz = Inr e)"

subsection \<open>Per-chat metrics (\<^verbatim>\<open>compute_chat_metrics\<close>)\<close>

text \<open>
  A message is the dictionary the exporter passes in, reduced to the keys the function
  reads from the message list for the fields below; \<^verbatim>\<open>sentAt\<close> holds what \<^verbatim>\<open>_dt\<close> returns for
  it (\<^verbatim>\<open>None\<close> when the value is missing or does not parse).  The timestamps of the
  messages are naive datetimes, each given by its reading, which is what \<^verbatim>\<open>min\<close>, \<^verbatim>\<open>max\<close>,
  \<^verbatim>\<open>sorted\<close> and the comparisons of the function work on; \<^verbatim>\<open>tz\<close> is \<^verbatim>\<open>ZoneInfo(tz_name)\<close>.  The five compiled patterns
  are only ever asked whether \<^verbatim>\<open>search\<close> finds a match, so each is a predicate on the text.
  The work hours arrive parsed.  The identity fields of \<^verbatim>\<open>ChatMetrics\<close> (chat id, channel,
  manager) are not part of this record.  The keys \<^verbatim>\<open>direction\<close>, \<^verbatim>\<open>sentAt\<close> and \<^verbatim>\<open>text\<close> of a
  message are the fields \<open>m_direction\<close>, \<open>m_sentAt\<close> and \<open>m_text\<close>.
\<close>

record message =
  m_direction :: string
  m_sentAt :: "datetime option"
  m_text :: string

record rule_patterns =
  RE_HAS_QUESTION :: "string \<Rightarrow> bool"
  RE_PRICE_INTENT :: "string \<Rightarrow> bool"
  RE_BUY_INTENT :: "string \<Rightarrow> bool"
  RE_AVAIL_INTENT :: "string \<Rightarrow> bool"
  RE_NEXT_STEP :: "string \<Rightarrow> bool"

text \<open>The five advice strings of the source are distinct constants.\<close>

datatype advice_text =
  NoManagerReply | SlowFirstReply | UnansweredInbound | FewQuestions | IntentWithoutNextStep

record ChatMetrics =
  inbound_count :: nat
  outbound_count :: nat
  first_inbound_at :: "datetime option"
  first_outbound_at :: "datetime option"
  first_response_sec :: "int option"
  last_inbound_at :: "datetime option"
  last_outbound_at :: "datetime option"
  unanswered_inbound :: nat
  advice :: "advice_text list"

fun join :: "string \<Rightarrow> string list \<Rightarrow> string" where
  "join sep [] = []"
| "join sep [x] = x"
| "join sep (x # y # ys) = x @ sep @ join sep (y # ys)"

text \<open>\<^verbatim>\<open>[a for a in advice if not (a in seen or seen.add(a))]\<close>: the first occurrence stays.\<close>

fun dedup :: "'a list \<Rightarrow> 'a list \<Rightarrow> 'a list" where
  "dedup seen [] = []"
| "dedup seen (a # as) = (if a \<in> set seen then dedup seen as else a # dedup (a # seen) as)"

definition parsed_times :: "message list \<Rightarrow> datetime list" where
  "parsed_times ms = List.map_filter m_sentAt ms"

definition compute_chat_metrics ::
  "rule_patterns \<Rightarrow> message list \<Rightarrow> zone \<Rightarrow> time_of_day \<Rightarrow> time_of_day \<Rightarrow> int
     \<Rightarrow> error + ChatMetrics" where
  "compute_chat_metrics P messages tz work_start work_end slow_first_reply_sec =
     (let inbound = filter (\<lambda>m. m_direction m = ''in'') messages;
          outbound = filter (\<lambda>m. m_direction m = ''out'') messages;
          inbound_count = length inbound;
          outbound_count = length outbound;
          inbound_times = parsed_times inbound;
          outbound_times = parsed_times outbound;
          first_inbound_at = (if inbound_times \<noteq> [] then Some (Min (set inbound_times)) else None);
          first_outbound_at =
            (case first_inbound_at of None \<Rightarrow> None
             | Some fi \<Rightarrow> find (\<lambda>t. t \<ge> fi) (sort outbound_times));
          last_inbound_at = (if inbound_times \<noteq> [] then Some (Max (set inbound_times)) else None);
          last_outbound_at = (if outbound_times \<noteq> [] then Some (Max (set outbound_times)) else None)
      in case (case (first_inbound_at, first_outbound_at) of
                 (Some fi, Some fo) \<Rightarrow>
                   business_seconds_between (Naive fi) (Naive fo) tz work_start work_end
               | _ \<Rightarrow> Inr None) of
           Inl err \<Rightarrow> Inl err
         | Inr response_sec \<Rightarrow>
            (let unanswered_inbound =
                   (case last_inbound_at of None \<Rightarrow> 0
                    | Some li \<Rightarrow>
                        (case last_outbound_at of
                           None \<Rightarrow> length inbound_times
                         | Some cutoff \<Rightarrow>
                             if li > cutoff
                             then length (filter (\<lambda>t. t > cutoff) inbound_times) else 0));
                 advice1 = (if inbound_count > 0 \<and> outbound_count = 0 then [NoManagerReply] else []);
                 advice2 = (case response_sec of None \<Rightarrow> []
                            | Some sec \<Rightarrow> if sec > slow_first_reply_sec then [SlowFirstReply] else []);
                 advice3 = (if unanswered_inbound > 0 then [UnansweredInbound] else []);
                 text_out = join [CHR '' '', CHR 0x0A] (take 6 (map m_text outbound));
                 text_in = join [CHR '' '', CHR 0x0A] (take 6 (map m_text inbound));
                 advice4 = (if inbound_count > 0 \<and> outbound_count > 0
                            then (if \<not> RE_HAS_QUESTION P text_out then [FewQuestions] else []) @
                                 (let intent = (RE_PRICE_INTENT P text_in \<or> RE_BUY_INTENT P text_in
                                                \<or> RE_AVAIL_INTENT P text_in)
                                  in if intent \<and> \<not> RE_NEXT_STEP P text_out
                                     then [IntentWithoutNextStep] else [])
                            else [])
             in Inr \<lparr>inbound_count = inbound_count,
                     outbound_count = outbound_count,
                     first_inbound_at = first_inbound_at,
                     first_outbound_at = first_outbound_at,
                     first_response_sec = response_sec,
                     last_inbound_at = last_inbound_at,
                     last_outbound_at = last_outbound_at,
                     unanswered_inbound = unanswered_inbound,
                     advice = dedup [] (advice1 @ advice2 @ advice3 @ advice4)\<rparr>))"

subsection \<open>Redaction (\<^verbatim>\<open>_redact_text\<close>)\<close>

text \<open>
  Text is ASCII here: one \<^typ>\<open>char\<close> per code point, and the classes \<^verbatim>\<open>\d\<close>, \<^verbatim>\<open>\w\<close> and
  \<^verbatim>\<open>\s\<close> are Python's classes for \<^verbatim>\<open>str\<close> patterns restricted to code points below 128.
\<close>

definition is_digit :: "char \<Rightarrow> bool" where
  "is_digit c = (let n = (of_char c :: nat) in 48 \<le> n \<and> n \<le> 57)"

definition is_alpha :: "char \<Rightarrow> bool" where
  "is_alpha c = (let n = (of_char c :: nat) in (65 \<le> n \<and> n \<le> 90) \<or> (97 \<le> n \<and> n \<le> 122))"

definition is_word :: "char \<Rightarrow> bool" where
  "is_word c = (is_digit c \<or> is_alpha c \<or> c = CHR ''_'')"

definition is_space :: "char \<Rightarrow> bool" where
  "is_space c = (let n = (of_char c :: nat) in (9 \<le> n \<and> n \<le> 13) \<or> (28 \<le> n \<and> n \<le> 32))"

text \<open>
  The four patterns are sequences of greedy repetitions of one character class and of
  word-boundary assertions; \<open>Rep p lo hi\<close> is \<^verbatim>\<open>[p]{lo,hi}\<close>, a literal is \<^verbatim>\<open>{1,1}\<close>,
  \<^verbatim>\<open>?\<close> is \<^verbatim>\<open>{0,1}\<close>, \<^verbatim>\<open>+\<close> is \<^verbatim>\<open>{1,}\<close>.
\<close>

datatype atom = Bnd | Rep "char \<Rightarrow> bool" nat "nat option"

fun first_some :: "'a option list \<Rightarrow> 'a option" where
  "first_some [] = None"
| "first_some (None # xs) = first_some xs"
| "first_some (Some v # xs) = Some v"

definition word_at :: "char option \<Rightarrow> bool" where
  "word_at c = (case c of None \<Rightarrow> False | Some x \<Rightarrow> is_word x)"

definition next_char :: "string \<Rightarrow> char option" where
  "next_char s = (case s of [] \<Rightarrow> None | c # _ \<Rightarrow> Some c)"

text \<open>
  \<open>match_here pat prev s\<close> is the length of the match the backtracking matcher finds for
  \<open>pat\<close> at the start of \<open>s\<close>, where \<open>prev\<close> is the character before: a repetition takes as
  many characters as it can and gives them back one at a time.
\<close>

fun match_here :: "atom list \<Rightarrow> char option \<Rightarrow> string \<Rightarrow> nat option" where
  "match_here [] prev s = Some 0"
| "match_here (Bnd # r) prev s =
     (if word_at prev \<noteq> word_at (next_char s) then match_here r prev s else None)"
| "match_here (Rep p lo hi # r) prev s =
     (let avail = length (takeWhile p s);
          mx = (case hi of None \<Rightarrow> avail | Some h \<Rightarrow> min h avail)
      in first_some
           (map (\<lambda>n. map_option (\<lambda>k. n + k)
                        (match_here r (if n = 0 then prev else Some (s ! (n - 1))) (drop n s)))
                (rev [lo..<Suc mx])))"

text \<open>
  \<^verbatim>\<open>pattern.sub(repl, s)\<close>: scan from the left, replace each match and go on behind it.
  None of the four patterns matches the empty string; the branch for an empty match is
  what \<^verbatim>\<open>re.sub\<close> does with one (replace, copy a character, go on).
\<close>

function re_sub :: "atom list \<Rightarrow> string \<Rightarrow> char option \<Rightarrow> string \<Rightarrow> string" where
  "re_sub pat repl prev [] = (case match_here pat prev [] of None \<Rightarrow> [] | Some n \<Rightarrow> repl)"
| "re_sub pat repl prev (c # cs) =
     (case match_here pat prev (c # cs) of
        None \<Rightarrow> c # re_sub pat repl (Some c) cs
      | Some 0 \<Rightarrow> repl @ c # re_sub pat repl (Some c) cs
      | Some (Suc k) \<Rightarrow> repl @ re_sub pat repl (Some ((c # cs) ! k)) (drop k cs))"
  by pat_completeness auto
termination
  by (relation "measure (\<lambda>(pat, repl, prev, s). length s)") auto

definition lit :: "char \<Rightarrow> atom" where
  "lit c = Rep (\<lambda>x. x = c) 1 (Some 1)"

text \<open>A letter under \<^verbatim>\<open>re.IGNORECASE\<close>.\<close>

definition lit_i :: "char \<Rightarrow> char \<Rightarrow> atom" where
  "lit_i lo up = Rep (\<lambda>x. x = lo \<or> x = up) 1 (Some 1)"

definition RE_URL :: "atom list" where
  "RE_URL = [lit_i CHR ''h'' CHR ''H'', lit_i CHR ''t'' CHR ''T'', lit_i CHR ''t'' CHR ''T'',
             lit_i CHR ''p'' CHR ''P'', Rep (\<lambda>x. x = CHR ''s'' \<or> x = CHR ''S'') 0 (Some 1),
             lit CHR '':'', lit CHR ''/'', lit CHR ''/'', Rep (\<lambda>x. \<not> is_space x) 1 None]"

definition RE_EMAIL :: "atom list" where
  "RE_EMAIL = [Bnd,
               Rep (\<lambda>x. is_word x \<or> x = CHR ''.'' \<or> x = CHR ''-'' \<or> x = CHR ''+'') 1 None,
               lit CHR ''@'',
               Rep (\<lambda>x. is_word x \<or> x = CHR ''.'' \<or> x = CHR ''-'') 1 None,
               lit CHR ''.'',
               Rep is_word 1 None,
               Bnd]"

definition RE_LONG_DIGITS :: "atom list" where
  "RE_LONG_DIGITS = [Bnd, Rep is_digit 5 None, Bnd]"

definition RE_PHONE :: "atom list" where
  "RE_PHONE = [Bnd, Rep (\<lambda>x. x = CHR ''+'') 0 (Some 1), Rep is_digit 1 (Some 1),
               Rep (\<lambda>x. is_digit x \<or> is_space x \<or> x = CHR ''-'' \<or> x = CHR ''('' \<or> x = CHR '')'')
                   7 None,
               Bnd]"

definition strip :: "string \<Rightarrow> string" where
  "strip s = rev (dropWhile is_space (rev (dropWhile is_space s)))"

definition redact_text :: "string \<Rightarrow> nat \<Rightarrow> string" where
  "redact_text s0 max_len =
     (let s1 = re_sub RE_URL ''[link]'' None s0;
          s2 = re_sub RE_EMAIL ''[email]'' None s1;
          s3 = re_sub RE_LONG_DIGITS ''***'' None s2;
          s4 = re_sub RE_PHONE ''***'' None s3;
          s5 = strip (map (\<lambda>c. if c = CHR 0x0A then CHR '' '' else c) s4)
      in take max_len s5)"

subsection \<open>Per-chat metrics: names for statements and concrete inputs\<close>

text \<open>
  The lists \<^verbatim>\<open>inbound_times\<close> and \<^verbatim>\<open>outbound_times\<close> of \<^verbatim>\<open>compute_chat_metrics\<close>, named for
  the statements about it.
\<close>

definition inbound_times_of :: "message list \<Rightarrow> datetime list" where
  "inbound_times_of ms = parsed_times (filter (\<lambda>m. m_direction m = ''in'') ms)"

definition outbound_times_of :: "message list \<Rightarrow> datetime list" where
  "outbound_times_of ms = parsed_times (filter (\<lambda>m. m_direction m = ''out'') ms)"

text \<open>
  On ASCII text none of the words of the five patterns can occur, since they are Cyrillic;
  what is left of \<^verbatim>\<open>_RE_HAS_QUESTION\<close> is its first alternative \<^verbatim>\<open>\?\s*$\<close>: the last character
  that is not white space is a question mark.
\<close>

definition ascii_rule_patterns :: rule_patterns where
  "ascii_rule_patterns =
     \<lparr>RE_HAS_QUESTION = (\<lambda>s. case dropWhile is_space (rev s) of [] \<Rightarrow> False | c # _ \<Rightarrow> c = CHR ''?''),
      RE_PRICE_INTENT = (\<lambda>s. False),
      RE_BUY_INTENT = (\<lambda>s. False),
      RE_AVAIL_INTENT = (\<lambda>s. False),
      RE_NEXT_STEP = (\<lambda>s. False)\<rparr>"

text \<open>Concrete chats, with timestamps inside the window 10:00 to 23:00 of the first day.\<close>

definition demo_outreach_chat :: "message list" where
  "demo_outreach_chat =
     [\<lparr>m_direction = ''out'', m_sentAt = Some 35000000000, m_text = ''hello''\<rparr>,
      \<lparr>m_direction = ''in'', m_sentAt = Some 36000000000, m_text = ''hi''\<rparr>,
      \<lparr>m_direction = ''in'', m_sentAt = None, m_text = ''anyone''\<rparr>,
      \<lparr>m_direction = ''out'', m_sentAt = Some 36060000000, m_text = ''yes?''\<rparr>]"

definition demo_outreach_metrics :: ChatMetrics where
  "demo_outreach_metrics =
     \<lparr>inbound_count = 2, outbound_count = 2,
      first_inbound_at = Some 36000000000, first_outbound_at = Some 36060000000,
      first_response_sec = Some 60,
      last_inbound_at = Some 36000000000, last_outbound_at = Some 36060000000,
      unanswered_inbound = 0, advice = []\<rparr>"

definition boundary_chat :: "datetime \<Rightarrow> datetime \<Rightarrow> datetime \<Rightarrow> datetime \<Rightarrow> message list" where
  "boundary_chat t1 t2 t25 t3 =
     [\<lparr>m_direction = ''in'', m_sentAt = Some t1, m_text = ''a''\<rparr>,
      \<lparr>m_direction = ''in'', m_sentAt = Some t2, m_text = ''b''\<rparr>,
      \<lparr>m_direction = ''out'', m_sentAt = Some t25, m_text = ''c''\<rparr>,
      \<lparr>m_direction = ''in'', m_sentAt = Some t3, m_text = ''d''\<rparr>]"

definition demo_boundary_metrics :: ChatMetrics where
  "demo_boundary_metrics =
     \<lparr>inbound_count = 3, outbound_count = 1,
      first_inbound_at = Some 36000000000, first_outbound_at = Some 36090000000,
      first_response_sec = Some 90,
      last_inbound_at = Some 36120000000, last_outbound_at = Some 36090000000,
      unanswered_inbound = 1, advice = [UnansweredInbound, FewQuestions]\<rparr>"

definition demo_long_chat :: "string \<Rightarrow> message list" where
  "demo_long_chat seventh =
     [\<lparr>m_direction = ''in'', m_sentAt = Some 36000000000, m_text = ''hi''\<rparr>,
      \<lparr>m_direction = ''out'', m_sentAt = Some 36001000000, m_text = ''1''\<rparr>,
      \<lparr>m_direction = ''out'', m_sentAt = Some 36002000000, m_text = ''2''\<rparr>,
      \<lparr>m_direction = ''out'', m_sentAt = Some 36003000000, m_text = ''3''\<rparr>,
      \<lparr>m_direction = ''out'', m_sentAt = Some 36004000000, m_text = ''4''\<rparr>,
      \<lparr>m_direction = ''out'', m_sentAt = Some 36005000000, m_text = ''5''\<rparr>,
      \<lparr>m_direction = ''out'', m_sentAt = Some 36006000000, m_text = ''6''\<rparr>,
      \<lparr>m_direction = ''out'', m_sentAt = Some 36007000000, m_text = seventh\<rparr>]"

subsection \<open>Behaviour digest: per-chat candidates (\<^verbatim>\<open>behavior_digest.main\<close>)\<close>

text \<open>The dataclass \<^verbatim>\<open>Msg\<close>; its field \<^verbatim>\<open>text\<close> is \<open>msg_text\<close> here.\<close>

record Msg =
  chat_id :: string
  sent_at :: "datetime option"
  direction :: string
  manager_id :: string
  message_type :: string
  author_type :: string
  msg_text :: string

definition ascii_lower :: "char \<Rightarrow> char" where
  "ascii_lower c = (let n = (of_char c :: nat) in if 65 \<le> n \<and> n \<le> 90 then char_of (n + 32) else c)"

definition ascii_upper :: "char \<Rightarrow> char" where
  "ascii_upper c = (let n = (of_char c :: nat) in if 97 \<le> n \<and> n \<le> 122 then char_of (n - 32) else c)"

definition is_manager_msg :: "Msg \<Rightarrow> bool" where
  "is_manager_msg m = (direction m = ''out'')"

definition is_customer_msg :: "Msg \<Rightarrow> bool" where
  "is_customer_msg m = (direction m = ''in'' \<and> map ascii_lower (author_type m) = ''customer'')"

definition is_textish :: "Msg \<Rightarrow> bool" where
  "is_textish m =
     (let t = map ascii_upper (message_type m)
      in t \<in> set [''TEXT'', ''COMMAND'', ''ORDER'', ''PRODUCT'', ''FILE'', ''AUDIO'', ''IMAGE'', []])"

text \<open>
  The keyword patterns of the digest, each asked only whether \<^verbatim>\<open>search\<close> finds a match;
  \<open>RE_QUESTION_LEAD\<close> is the pattern written inside \<^verbatim>\<open>_count_questions\<close>.
\<close>

record digest_patterns =
  KW_INTENT :: "string \<Rightarrow> bool"
  KW_NEXTSTEP :: "string \<Rightarrow> bool"
  RE_QUESTION_LEAD :: "string \<Rightarrow> bool"

definition count_questions :: "digest_patterns \<Rightarrow> string \<Rightarrow> nat" where
  "count_questions P txt =
     (if txt = [] then 0
      else let q = count_list txt CHR ''?''
           in if RE_QUESTION_LEAD P txt then q + 1 else q)"

fun snippet_loop :: "string \<Rightarrow> string \<Rightarrow> Msg list \<Rightarrow> string \<times> string" where
  "snippet_loop inbound outbound [] = (inbound, outbound)"
| "snippet_loop inbound outbound (m # ms) =
     (let inbound' = (if inbound = [] \<and> is_customer_msg m \<and> is_textish m \<and> msg_text m \<noteq> []
                      then redact_text (msg_text m) 220 else inbound);
          outbound' = (if outbound = [] \<and> is_manager_msg m \<and> is_textish m \<and> msg_text m \<noteq> []
                       then redact_text (msg_text m) 220 else outbound)
      in if inbound' \<noteq> [] \<and> outbound' \<noteq> [] then (inbound', outbound')
         else snippet_loop inbound' outbound' ms)"

definition chat_snippet :: "Msg list \<Rightarrow> string \<times> string" where
  "chat_snippet msgs = snippet_loop [] [] msgs"

text \<open>
  The tables \<^verbatim>\<open>main\<close> builds from the sheet \<^verbatim>\<open>chats_raw\<close>; a lookup with \<^verbatim>\<open>.get\<close> that
  finds no key and one that finds \<^verbatim>\<open>None\<close> are the same \<open>None\<close> here.
\<close>

record chat_tables =
  mgr_name_by_id :: "string \<rightharpoonup> string"
  chat_mgr_id :: "string \<rightharpoonup> string"
  chat_mgr_name :: "string \<rightharpoonup> string"
  chat_first_reply_sec :: "string \<rightharpoonup> int"
  chat_no_reply :: "string \<rightharpoonup> int"

text \<open>A candidate is the tuple \<^verbatim>\<open>(cid, score, sn_in, sn_out)\<close>.\<close>

type_synonym cand = "string \<times> int \<times> string \<times> string"

definition score :: "cand \<Rightarrow> int" where
  "score x = fst (snd x)"

text \<open>
  The part of the state of the loop over \<^verbatim>\<open>by_chat\<close> that the examples and the first-reply
  sample are read from; the counters of \<^verbatim>\<open>agg\<close> are not part of it.
\<close>

record digest_state =
  first_reply_values_by_mgr :: "string \<rightharpoonup> int list"
  cand_no_reply :: "string \<rightharpoonup> cand list"
  cand_slow :: "string \<rightharpoonup> cand list"
  cand_no_next :: "string \<rightharpoonup> cand list"
  cand_good :: "string \<rightharpoonup> cand list"

text \<open>\<^verbatim>\<open>d.setdefault(k, []).append(v)\<close>\<close>

definition setdefault_append :: "('k \<rightharpoonup> 'v list) \<Rightarrow> 'k \<Rightarrow> 'v \<Rightarrow> ('k \<rightharpoonup> 'v list)" where
  "setdefault_append d k v = d(k \<mapsto> (case d k of None \<Rightarrow> [v] | Some xs \<Rightarrow> xs @ [v]))"

text \<open>\<^verbatim>\<open>d.get(k) or ""\<close> and \<^verbatim>\<open>d.get(k, "")\<close> on a dictionary of strings.\<close>

definition get_or_empty :: "(string \<rightharpoonup> string) \<Rightarrow> string \<Rightarrow> string" where
  "get_or_empty d k = (case d k of None \<Rightarrow> [] | Some v \<Rightarrow> v)"

definition resolve_manager :: "chat_tables \<Rightarrow> string \<Rightarrow> Msg list \<Rightarrow> string \<times> string" where
  "resolve_manager T cid ms =
     (let mid0 = get_or_empty (chat_mgr_id T) cid;
          mname0 = (if get_or_empty (chat_mgr_name T) cid \<noteq> [] then get_or_empty (chat_mgr_name T) cid
                    else get_or_empty (mgr_name_by_id T) mid0);
          mid1 = (if mid0 = []
                  then (case find (\<lambda>m. is_manager_msg m \<and> manager_id m \<noteq> []) ms of
                          None \<Rightarrow> mid0 | Some m \<Rightarrow> manager_id m)
                  else mid0);
          mname1 = (if mname0 = [] \<and> mid1 \<noteq> [] then get_or_empty (mgr_name_by_id T) mid1 else mname0)
      in if mid1 = [] \<and> mname1 = [] then ([], ''(unassigned)'') else (mid1, mname1))"

definition responded :: "Msg list \<Rightarrow> bool" where
  "responded ms = (\<exists>m \<in> set ms. is_manager_msg m \<and> is_textish m)"

definition manager_texts :: "Msg list \<Rightarrow> string list" where
  "manager_texts ms =
     map msg_text (filter (\<lambda>m. is_manager_msg m \<and> is_textish m \<and> msg_text m \<noteq> []) ms)"

definition customer_texts :: "Msg list \<Rightarrow> string list" where
  "customer_texts ms =
     map msg_text (filter (\<lambda>m. is_customer_msg m \<and> is_textish m \<and> msg_text m \<noteq> []) ms)"

definition questions :: "digest_patterns \<Rightarrow> Msg list \<Rightarrow> nat" where
  "questions P ms = sum_list (map (count_questions P) (manager_texts ms))"

definition last_out :: "Msg list \<Rightarrow> string" where
  "last_out ms =
     (case find (\<lambda>m. is_manager_msg m \<and> is_textish m \<and> msg_text m \<noteq> []) (rev ms) of
        None \<Rightarrow> [] | Some m \<Rightarrow> msg_text m)"

definition next_step :: "digest_patterns \<Rightarrow> Msg list \<Rightarrow> bool" where
  "next_step P ms = (last_out ms \<noteq> [] \<and> KW_NEXTSTEP P (last_out ms))"

definition high_intent :: "digest_patterns \<Rightarrow> Msg list \<Rightarrow> bool" where
  "high_intent P ms = (\<exists>t \<in> set (customer_texts ms). KW_INTENT P t)"

definition process_chat ::
  "digest_patterns \<Rightarrow> chat_tables \<Rightarrow> digest_state \<Rightarrow> string \<times> Msg list \<Rightarrow> digest_state" where
  "process_chat P T st c =
     (let cid = fst c; ms = snd c;
          mid = fst (resolve_manager T cid ms);
          no_reply_flag = (case chat_no_reply T cid of None \<Rightarrow> False | Some v \<Rightarrow> v \<noteq> 0);
          fr = chat_first_reply_sec T cid;
          fr_positive = (case fr of None \<Rightarrow> False | Some v \<Rightarrow> v > 0);
          st1 = (if fr_positive
                 then st\<lparr>first_reply_values_by_mgr :=
                           setdefault_append (first_reply_values_by_mgr st) mid (the fr)\<rparr>
                 else st);
          sn = chat_snippet ms;
          sn_in = fst sn; sn_out = snd sn;
          st2 = (if no_reply_flag
                 then st1\<lparr>cand_no_reply :=
                            setdefault_append (cand_no_reply st1) mid (cid, 100, sn_in, sn_out)\<rparr>
                 else st1);
          st3 = (if fr_positive \<and> the fr \<ge> 30 * 60
                 then st2\<lparr>cand_slow :=
                            setdefault_append (cand_slow st2) mid (cid, the fr, sn_in, sn_out)\<rparr>
                 else st2);
          st4 = (if high_intent P ms \<and> responded ms \<and> \<not> next_step P ms
                 then st3\<lparr>cand_no_next :=
                            setdefault_append (cand_no_next st3) mid (cid, 50, sn_in, sn_out)\<rparr>
                 else st3)
      in if responded ms \<and> next_step P ms \<and> questions P ms \<ge> 1
            \<and> fr_positive \<and> the fr \<le> 10 * 60
         then st4\<lparr>cand_good :=
                    setdefault_append (cand_good st4) mid (cid, 10 * 60 - the fr, sn_in, sn_out)\<rparr>
         else st4)"

text \<open>
  The key of a message without a timestamp is \<^verbatim>\<open>datetime.min\<close>; \<^verbatim>\<open>ms.sort(key=...)\<close> is stable,
  as \<^const>\<open>sort_key\<close> is.
\<close>

definition sort_chat :: "Msg list \<Rightarrow> Msg list" where
  "sort_chat ms = sort_key (\<lambda>x. case sent_at x of None \<Rightarrow> DATETIME_MIN | Some t \<Rightarrow> t) ms"

definition init_state :: digest_state where
  "init_state = \<lparr>first_reply_values_by_mgr = Map.empty, cand_no_reply = Map.empty,
                 cand_slow = Map.empty, cand_no_next = Map.empty, cand_good = Map.empty\<rparr>"

definition digest_loop ::
  "digest_patterns \<Rightarrow> chat_tables \<Rightarrow> (string \<times> Msg list) list \<Rightarrow> digest_state" where
  "digest_loop P T by_chat =
     foldl (process_chat P T) init_state (map (\<lambda>c. (fst c, sort_chat (snd c))) by_chat)"

text \<open>
  \<^verbatim>\<open>sorted(items, key=lambda x: x[1], reverse=True)[:3]\<close>: Python keeps the order of
  candidates with equal scores also under \<^verbatim>\<open>reverse=True\<close>, which is the stable ascending
  sort on the negated score.
\<close>

definition pick_top :: "(string \<rightharpoonup> cand list) \<Rightarrow> (string \<rightharpoonup> cand list)" where
  "pick_top cands =
     (\<lambda>mid. case cands mid of None \<Rightarrow> None
             | Some items \<Rightarrow> Some (take 3 (sort_key (\<lambda>x. - score x) items)))"

subsection \<open>Behaviour digest: baseline and deltas\<close>

text \<open>
  A row of the history sheet, as \<^verbatim>\<open>main\<close> reads it: \<open>h_run_ts\<close> is what \<^verbatim>\<open>_parse_dt\<close> returns
  for the cell \<^verbatim>\<open>run_ts\<close>, \<open>h_value k\<close> what \<^verbatim>\<open>_to_float\<close> returns for the cell of column \<open>k\<close>
  (\<open>None\<close> for an empty or unreadable cell).  The numbers are floats in the source; their
  type and the operation \<^verbatim>\<open>round(cur - base_val, 4)\<close> are parameters here.
\<close>

record 'f hist_row =
  h_run_ts :: "datetime option"
  h_manager_id :: string
  h_value :: "string \<Rightarrow> 'f option"

definition baseline_step ::
  "datetime \<Rightarrow> (string \<rightharpoonup> datetime) \<times> (string \<rightharpoonup> 'f hist_row) \<Rightarrow> 'f hist_row
     \<Rightarrow> (string \<rightharpoonup> datetime) \<times> (string \<rightharpoonup> 'f hist_row)" where
  "baseline_step cutoff acc r =
     (let best_ts = fst acc; baseline = snd acc
      in case h_run_ts r of
           None \<Rightarrow> acc
         | Some ts \<Rightarrow>
             if ts > cutoff then acc
             else let mid = h_manager_id r
                  in if (case best_ts mid of None \<Rightarrow> True | Some b \<Rightarrow> ts > b)
                     then (best_ts(mid \<mapsto> ts), baseline(mid \<mapsto> r))
                     else acc)"

definition select_baseline :: "datetime \<Rightarrow> 'f hist_row list \<Rightarrow> (string \<rightharpoonup> 'f hist_row)" where
  "select_baseline now hist_rows =
     (let cutoff = now - 6 * US_PER_DAY
      in snd (foldl (baseline_step cutoff) (Map.empty, Map.empty) hist_rows))"

definition delta_keys :: "string list" where
  "delta_keys = [''response_rate'', ''no_reply_rate'', ''avg_questions_per_chat'',
                 ''next_step_rate'', ''spin_rate'', ''upsell_rate'', ''follow_up_gap_rate'',
                 ''median_first_reply_sec'', ''p90_first_reply_sec'']"

text \<open>
  The \<^verbatim>\<open>delta_\<close> columns added to one row of the snapshot; \<open>None\<close> is the empty cell.
\<close>

definition delta_fields ::
  "('f \<Rightarrow> 'f \<Rightarrow> 'f) \<Rightarrow> (string \<rightharpoonup> 'f hist_row) \<Rightarrow> 'f hist_row \<Rightarrow> (string \<times> 'f option) list" where
  "delta_fields round_diff baseline r =
     (let mid = h_manager_id r; b = baseline mid
      in map (\<lambda>k. (''delta_'' @ k,
                    (let cur = h_value r k;
                         base_val = (case b of None \<Rightarrow> None | Some br \<Rightarrow> h_value br k)
                     in case (cur, base_val) of
                          (Some c, Some bv) \<Rightarrow> Some (round_diff c bv)
                        | _ \<Rightarrow> None)))
             delta_keys)"

subsection \<open>Behaviour digest: names for statements and concrete inputs\<close>

text \<open>
  \<open>entries d k\<close> is the list stored under a key, empty when the key is absent.  The three
  predicates that follow restate, for one chat \<open>c\<close> and one manager, the conditions under which
  the loop appends to \<^verbatim>\<open>cand_good\<close>, to \<^verbatim>\<open>cand_slow\<close> and to \<^verbatim>\<open>first_reply_values_by_mgr\<close>,
  and what it appends.
\<close>

definition entries :: "('k \<rightharpoonup> 'v list) \<Rightarrow> 'k \<Rightarrow> 'v list" where
  "entries d k = (case d k of None \<Rightarrow> [] | Some xs \<Rightarrow> xs)"

definition good_candidate ::
  "digest_patterns \<Rightarrow> chat_tables \<Rightarrow> string \<Rightarrow> string \<times> Msg list \<Rightarrow> cand \<Rightarrow> bool" where
  "good_candidate P T mid c x =
     (let cid = fst c; ms = snd c
      in fst (resolve_manager T cid ms) = mid
         \<and> responded ms \<and> next_step P ms \<and> questions P ms \<ge> 1
         \<and> (case chat_first_reply_sec T cid of
               None \<Rightarrow> False
             | Some fr \<Rightarrow> 0 < fr \<and> fr \<le> 10 * 60
                          \<and> x = (cid, 10 * 60 - fr, fst (chat_snippet ms), snd (chat_snippet ms))))"

definition slow_candidate ::
  "chat_tables \<Rightarrow> string \<Rightarrow> string \<times> Msg list \<Rightarrow> cand \<Rightarrow> bool" where
  "slow_candidate T mid c x =
     (let cid = fst c; ms = snd c
      in fst (resolve_manager T cid ms) = mid
         \<and> (case chat_first_reply_sec T cid of
               None \<Rightarrow> False
             | Some fr \<Rightarrow> 0 < fr \<and> fr \<ge> 30 * 60
                          \<and> x = (cid, fr, fst (chat_snippet ms), snd (chat_snippet ms))))"

definition first_reply_sample ::
  "chat_tables \<Rightarrow> string \<Rightarrow> string \<times> Msg list \<Rightarrow> int \<Rightarrow> bool" where
  "first_reply_sample T mid c v =
     (fst (resolve_manager T (fst c) (snd c)) = mid
      \<and> chat_first_reply_sec T (fst c) = Some v \<and> 0 < v)"

text \<open>A candidate that carries the id and the snippets of the chat \<open>c\<close>.\<close>

definition snippets_of :: "string \<times> Msg list \<Rightarrow> cand \<Rightarrow> bool" where
  "snippets_of c x = (fst x = fst c \<and> snd (snd x) = chat_snippet (snd c))"

text \<open>
  On ASCII text the keywords of the digest's patterns, which are Cyrillic, cannot occur;
  what is left of \<^verbatim>\<open>_KW_NEXTSTEP\<close> is its alternative \<^verbatim>\<open>\?\<close>: the text contains a question mark.
\<close>

definition ascii_digest_patterns :: digest_patterns where
  "ascii_digest_patterns =
     \<lparr>KW_INTENT = (\<lambda>s. False),
      KW_NEXTSTEP = (\<lambda>s. CHR ''?'' \<in> set s),
      RE_QUESTION_LEAD = (\<lambda>s. False)\<rparr>"

definition demo_msgs_of :: "string \<Rightarrow> Msg list" where
  "demo_msgs_of cid =
     [\<lparr>chat_id = cid, sent_at = Some 36060000000, direction = ''out'',
       manager_id = ''m1'', message_type = ''TEXT'', author_type = ''user'',
       msg_text = ''ok?''\<rparr>]"

definition demo_by_chat :: "(string \<times> Msg list) list" where
  "demo_by_chat = [(''c1'', demo_msgs_of ''c1'')]"

definition demo_tables :: "int \<Rightarrow> chat_tables" where
  "demo_tables fr =
     \<lparr>mgr_name_by_id = Map.empty,
      chat_mgr_id = [''c1'' \<mapsto> ''m1''],
      chat_mgr_name = Map.empty,
      chat_first_reply_sec = [''c1'' \<mapsto> fr],
      chat_no_reply = [''c1'' \<mapsto> 0]\<rparr>"

text \<open>
  Six chats of one manager with stored first response times of 0, 1900, 60, 30, 600 and
  300 seconds.
\<close>

definition demo_six_chats :: "(string \<times> Msg list) list" where
  "demo_six_chats =
     [(''c1'', demo_msgs_of ''c1''), (''c2'', demo_msgs_of ''c2''), (''c3'', demo_msgs_of ''c3''),
      (''c4'', demo_msgs_of ''c4''), (''c5'', demo_msgs_of ''c5''), (''c6'', demo_msgs_of ''c6'')]"

definition demo_six_tables :: chat_tables where
  "demo_six_tables =
     \<lparr>mgr_name_by_id = Map.empty,
      chat_mgr_id = [''c1'' \<mapsto> ''m1'', ''c2'' \<mapsto> ''m1'', ''c3'' \<mapsto> ''m1'',
                     ''c4'' \<mapsto> ''m1'', ''c5'' \<mapsto> ''m1'', ''c6'' \<mapsto> ''m1''],
      chat_mgr_name = Map.empty,
      chat_first_reply_sec = [''c1'' \<mapsto> 0, ''c2'' \<mapsto> 1900, ''c3'' \<mapsto> 60,
                              ''c4'' \<mapsto> 30, ''c5'' \<mapsto> 600, ''c6'' \<mapsto> 300],
      chat_no_reply = Map.empty\<rparr>"

subsection \<open>Baseline: names for statements and concrete inputs\<close>

text \<open>
  A row qualifies for a manager when it is that manager's, its timestamp parses and is not
  after the cutoff.  \<open>best_for\<close> says what the two dictionaries of the loop hold for one
  manager after the rows seen so far.
\<close>

definition qualifies :: "datetime \<Rightarrow> string \<Rightarrow> 'f hist_row \<Rightarrow> datetime \<Rightarrow> bool" where
  "qualifies cutoff mid r ts = (h_manager_id r = mid \<and> h_run_ts r = Some ts \<and> ts \<le> cutoff)"

definition best_for ::
  "datetime \<Rightarrow> 'f hist_row list \<Rightarrow> string \<Rightarrow> datetime option \<Rightarrow> 'f hist_row option \<Rightarrow> bool" where
  "best_for cutoff rows mid bt bl =
     ((bl = None \<longrightarrow> bt = None \<and> (\<forall>r \<in> set rows. \<forall>ts. \<not> qualifies cutoff mid r ts))
      \<and> (\<forall>b. bl = Some b \<longrightarrow>
             b \<in> set rows
             \<and> (\<exists>ts. bt = Some ts \<and> qualifies cutoff mid b ts
                     \<and> (\<forall>r \<in> set rows. \<forall>ts'. qualifies cutoff mid r ts' \<longrightarrow> ts' \<le> ts))))"

definition baseline_inv ::
  "datetime \<Rightarrow> 'f hist_row list \<Rightarrow> (string \<rightharpoonup> datetime) \<times> (string \<rightharpoonup> 'f hist_row) \<Rightarrow> bool" where
  "baseline_inv cutoff rows acc = (\<forall>mid. best_for cutoff rows mid (fst acc mid) (snd acc mid))"

definition demo_row :: "datetime \<Rightarrow> int \<Rightarrow> int hist_row" where
  "demo_row ts v = \<lparr>h_run_ts = Some ts, h_manager_id = ''m1'', h_value = (\<lambda>k. Some v)\<rparr>"

definition demo_history :: "int hist_row list" where
  "demo_history =
     [demo_row 864000000000 1, demo_row 1123200000000 2,
      demo_row 1468800000000 3, demo_row 1641600000000 4]"

section \<open>Properties\<close>

subsection \<open>Percentiles\<close>

lemma py_round_bounds:
  assumes "0 \<le> x" "x \<le> of_int m"
  shows "0 \<le> py_round x \<and> py_round x \<le> m"
proof -
  have f0: "0 \<le> \<lfloor>x\<rfloor>" using assms(1) by simp
  have fm: "\<lfloor>x\<rfloor> \<le> m" using assms(2) by (simp add: floor_le_iff)
  show ?thesis
  proof (cases "\<lfloor>x\<rfloor> = m")
    case True
    then have "x - of_int \<lfloor>x\<rfloor> \<le> 0" using assms(2) by simp
    then have "x - of_int \<lfloor>x\<rfloor> < 1 / 2" by linarith
    then show ?thesis using f0 True by (simp add: py_round_def Let_def)
  next
    case False
    then have "\<lfloor>x\<rfloor> + 1 \<le> m" using fm by linarith
    then show ?thesis using f0 by (auto simp: py_round_def Let_def)
  qed
qed

lemma sort_key_eq_Nil: "sort_key f xs = [] \<longleftrightarrow> xs = []"
  by (metis length_sort length_0_conv)

lemma pct_index:
  assumes "vals \<noteq> []" "0 \<le> p" "p \<le> 1"
  shows "0 \<le> py_round (of_int (int (length vals) - 1) * p)
       \<and> py_round (of_int (int (length vals) - 1) * p) \<le> int (length vals) - 1"
proof -
  let ?m = "int (length vals) - 1"
  have "0 < length vals" using assms(1) by (cases vals) simp_all
  then have m0: "0 \<le> ?m" by linarith
  then have m0': "(0::rat) \<le> of_int ?m" by (simp only: of_int_0_le_iff)
  have a: "0 \<le> of_int ?m * p" using m0' assms(2) by (rule mult_nonneg_nonneg)
  have "of_int ?m * p \<le> of_int ?m * 1" using m0' assms(3) by (rule mult_left_mono[rotated])
  then have b: "of_int ?m * p \<le> of_int ?m" by simp
  show ?thesis using py_round_bounds[OF a b] .
qed

text \<open>
  C1 (as amended).  For a non-empty sample and \<open>p\<close> one half or nine tenths, \<^verbatim>\<open>_pct\<close> (the
  manager summary and the channel summary) returns the element of the ascending sample at
  index \<open>round ((n - 1) * p)\<close>, with Python's rounding of ties to the even neighbour; the
  clamp to \<open>[0, n - 1]\<close> never changes that index, and the result is an element of the
  sample.  \<^verbatim>\<open>_pct [10,20,30,40,50]\<close> is 30 at one half and 50 at nine tenths.  The
  behaviour digest does not use this rule: its median is the element at index \<open>n div 2\<close> and
  its p90 the element at index \<open>9 * n div 10\<close>.
\<close>

theorem pct_nearest_rank:
  assumes "vals \<noteq> []" and "p = 1 / 2 \<or> p = 9 / 10"
  shows "(\<exists>k. int k = max 0 (min (int (length vals) - 1)
                                 (py_round (of_int (int (length vals) - 1) * p)))
              \<and> int k = py_round (of_int (int (length vals) - 1) * p)
              \<and> k < length vals
              \<and> pct vals p = Some (sort vals ! k)
              \<and> sort vals ! k \<in> set vals)
       \<and> pct [10, 20, 30, 40, 50] (1 / 2) = Some 30
       \<and> pct [10, 20, 30, 40, 50] (9 / 10) = Some 50
       \<and> digest_median vals = Some (sort vals ! (length vals div 2))
       \<and> digest_p90 vals = Some (sort vals ! (9 * length vals div 10))"
proof -
  let ?r = "py_round (of_int (int (length vals) - 1) * p)"
  have p01: "0 \<le> p" "p \<le> 1" using assms(2) by auto
  have r: "0 \<le> ?r" "?r \<le> int (length vals) - 1"
    using pct_index[OF assms(1) p01] by auto
  define k where "k = nat ?r"
  have k1: "int k = ?r" using r by (simp add: k_def)
  have k2: "int k = max 0 (min (int (length vals) - 1) ?r)" using r k1 by simp
  have k3: "k < length vals" using r k1 by linarith
  have "nat (max 0 (min (int (length vals) - 1) ?r)) = k"
    using k2 by linarith
  then have k4: "pct vals p = Some (sort vals ! k)"
    using assms(1) by (simp only: pct_def Let_def length_sort if_False)
  have "sort vals ! k \<in> set (sort vals)" using k3 by (intro nth_mem) simp
  then have k5: "sort vals ! k \<in> set vals" by simp
  have e1: "pct [10, 20, 30, 40, 50] (1 / 2) = Some 30"
    by code_simp
  have e2: "pct [10, 20, 30, 40, 50] (9 / 10) = Some 50"
    by code_simp
  have d1: "digest_median vals = Some (sort vals ! (length vals div 2))"
    using assms(1) by (simp add: digest_median_def Let_def sort_key_eq_Nil)
  have "\<lfloor>of_nat (length vals) * (9 / 10 :: rat)\<rfloor> = (9 * int (length vals)) div 10"
  proof -
    have "of_nat (length vals) * (9 / 10 :: rat) = of_int (9 * int (length vals)) / of_int 10"
      by simp
    then show ?thesis by (simp only: floor_divide_of_int_eq)
  qed
  then have "nat \<lfloor>of_nat (length vals) * (9 / 10 :: rat)\<rfloor> = 9 * length vals div 10"
    by (simp add: nat_div_distrib nat_mult_distrib)
  then have d2: "digest_p90 vals = Some (sort vals ! (9 * length vals div 10))"
    using assms(1) by (simp add: digest_p90_def Let_def sort_key_eq_Nil)
  show ?thesis using k1 k2 k3 k4 k5 e1 e2 d1 d2 by blast
qed

theorem pct_nearest_rank_witness:
  "[1, 2, 3 :: int] \<noteq> [] \<and> ((9 / 10 :: rat) = 1 / 2 \<or> (9 / 10 :: rat) = 9 / 10)
   \<and> pct [10, 20, 30, 40, 50] (9 / 10) = Some 50
   \<and> digest_p90 [1, 2, 3] = Some (sort [1, 2, 3] ! (9 * length [1, 2, 3 :: int] div 10))"
  using pct_nearest_rank [of "[1, 2, 3]" "9 / 10"] by simp

text \<open>
  As the specification states it, the property fails for the digest: on ten values its p90 is the largest one, where
  the nearest rank \<open>round 8.1 = 8\<close> is the ninth; on two values its median is the larger
  one, where \<open>round 0.5 = 0\<close> selects the smaller.
\<close>

theorem digest_percentile_counterexample:
  "digest_p90 [1, 2, 3, 4, 5, 6, 7, 8, 9, 10] = Some 10
   \<and> pct [1, 2, 3, 4, 5, 6, 7, 8, 9, 10] (9 / 10) = Some 9
   \<and> digest_median [10, 20] = Some 20
   \<and> pct [10, 20] (1 / 2) = Some 10"
  by code_simp

subsection \<open>Business clock\<close>

lemma overlap_seconds_nonneg: "0 \<le> overlap_seconds s e ws we d"
  by (simp add: overlap_seconds_def Let_def US_PER_SEC_def pos_imp_zdiv_nonneg_iff)

lemma day_loop_sum:
  "last_day < LAST_DAY \<or> last_day < cur_day \<Longrightarrow>
   day_loop s e ws we cur_day last_day acc
     = Inr (acc + sum_list (map (overlap_seconds s e ws we) [cur_day..last_day]))"
proof (induction s e ws we cur_day last_day acc rule: day_loop.induct)
  case (1 s e ws we cur_day last_day acc)
  show ?case
  proof (cases "cur_day \<le> last_day")
    case True
    then have lt: "last_day < LAST_DAY" using "1.prems" by simp
    then have no: "\<not> cur_day + 1 > LAST_DAY" using True by simp
    have u: "[cur_day..last_day] = cur_day # [cur_day + 1..last_day]"
      using True by (simp add: upto_rec1)
    let ?acc' = "if max s (combine cur_day ws) < min e (combine cur_day we)
                 then acc + whole_seconds (min e (combine cur_day we) - max s (combine cur_day ws))
                 else acc"
    have eq: "?acc' = acc + overlap_seconds s e ws we cur_day"
      by (simp add: overlap_seconds_def whole_seconds_def Let_def)
    have "day_loop s e ws we cur_day last_day acc
            = day_loop s e ws we (cur_day + 1) last_day ?acc'"
      using True no by (subst day_loop.simps) (simp add: Let_def)
    also have "\<dots> = Inr (?acc' + sum_list (map (overlap_seconds s e ws we) [cur_day + 1..last_day]))"
      using "1.IH"[OF True refl refl refl refl refl no] lt by simp
    finally show ?thesis by (simp only: eq u) simp
  next
    case False
    then show ?thesis by (subst day_loop.simps) simp
  qed
qed

lemma day_loop_overflow:
  "cur_day \<le> last_day \<Longrightarrow> LAST_DAY \<le> last_day \<Longrightarrow>
   day_loop s e ws we cur_day last_day acc = Inl OverflowError"
proof (induction s e ws we cur_day last_day acc rule: day_loop.induct)
  case (1 s e ws we cur_day last_day acc)
  show ?case
  proof (cases "cur_day + 1 > LAST_DAY")
    case True
    then show ?thesis using "1.prems" by (subst day_loop.simps) (simp add: Let_def)
  next
    case False
    let ?acc' = "if max s (combine cur_day ws) < min e (combine cur_day we)
                 then acc + whole_seconds (min e (combine cur_day we) - max s (combine cur_day ws))
                 else acc"
    have le: "cur_day + 1 \<le> last_day" using False "1.prems" by simp
    have "day_loop s e ws we cur_day last_day acc
            = day_loop s e ws we (cur_day + 1) last_day ?acc'"
      using "1.prems" False by (subst day_loop.simps) (simp add: Let_def)
    also have "\<dots> = Inl OverflowError"
      using "1.IH"[OF "1.prems"(1) refl refl refl refl refl False le "1.prems"(2)] .
    finally show ?thesis .
  qed
qed

lemma sum_list_nonneg_int:
  "(\<And>x. x \<in> set xs \<Longrightarrow> (0::int) \<le> f x) \<Longrightarrow> 0 \<le> sum_list (map f xs)"
  by (induction xs) auto

lemma span_in_zone_naive: "span_in_zone (Naive a) (Naive b) tz s e = (a \<le> b \<and> s = a \<and> e = b)"
  by (auto simp: span_in_zone_def)

lemma business_seconds_general:
  assumes "span_in_zone start_dt end_dt tz s e" "ws < we"
    and "date_of e < LAST_DAY \<or> date_of e < date_of s"
  shows "business_seconds_between start_dt end_dt tz ws we
           = Inr (Some (sum_list (map (overlap_seconds s e ws we) [date_of s..date_of e])))"
  using assms by (simp add: business_seconds_between_def span_in_zone_def day_loop_sum)

lemma business_seconds_overflow:
  assumes "span_in_zone start_dt end_dt tz s e" "ws < we"
    and "date_of s \<le> date_of e" "LAST_DAY \<le> date_of e"
  shows "business_seconds_between start_dt end_dt tz ws we = Inl OverflowError"
  using assms by (simp add: business_seconds_between_def span_in_zone_def day_loop_overflow)

lemma date_of_combine:
  assumes "combine d a \<le> t" "t \<le> combine d b" "0 \<le> a" "b < US_PER_DAY"
  shows "date_of t = d"
proof -
  have lo: "0 \<le> t - d * US_PER_DAY" using assms by (simp add: combine_def)
  have hi: "t - d * US_PER_DAY < US_PER_DAY" using assms by (simp add: combine_def)
  have "t = US_PER_DAY * d + (t - d * US_PER_DAY)" by simp
  then show ?thesis unfolding date_of_def using lo hi by (rule int_div_pos_eq)
qed

lemma inside_window:
  assumes "valid_time ws" "valid_time we" "ws < we"
    and "span_in_zone start_dt end_dt tz s e"
    and "combine d ws \<le> s" "s \<le> e" "e \<le> combine d we" "d < LAST_DAY"
  shows "business_seconds_between start_dt end_dt tz ws we = Inr (Some ((e - s) div US_PER_SEC))"
proof -
  have ds: "date_of s = d"
    using assms by (intro date_of_combine[of d ws s we]) (auto simp: valid_time_def)
  have de: "date_of e = d"
    using assms by (intro date_of_combine[of d ws e we]) (auto simp: valid_time_def)
  have "overlap_seconds s e ws we d = (e - s) div US_PER_SEC"
    using assms(5-7) by (auto simp: overlap_seconds_def Let_def max_def min_def)
  then show ?thesis
    using assms(3,4,8) by (simp add: business_seconds_general ds de)
qed

lemma outside_windows:
  assumes "ws < we" "span_in_zone start_dt end_dt tz s e" "date_of e < LAST_DAY"
    and "\<forall>d. e \<le> combine d ws \<or> combine d we \<le> s"
  shows "business_seconds_between start_dt end_dt tz ws we = Inr (Some 0)"
proof -
  have "overlap_seconds s e ws we d = 0" for d
    using assms(4)[rule_format, of d]
    by (auto simp: overlap_seconds_def Let_def max_def min_def)
  then have "sum_list (map (overlap_seconds s e ws we) ds) = 0" for ds
    by (induction ds) auto
  then show ?thesis using assms(1,2,3) by (simp add: business_seconds_general)
qed

lemma crossing_midnight:
  assumes "valid_time ws" "valid_time we" "ws < we"
    and "span_in_zone start_dt end_dt tz s e"
    and "combine d ws \<le> s" "s \<le> combine d we"
    and "combine (d + 1) ws \<le> e" "e \<le> combine (d + 1) we" "d + 1 < LAST_DAY"
  shows "business_seconds_between start_dt end_dt tz ws we
           = Inr (Some ((combine d we - s) div US_PER_SEC
                        + (e - combine (d + 1) ws) div US_PER_SEC))"
proof -
  have ds: "date_of s = d"
    using assms by (intro date_of_combine[of d ws s we]) (auto simp: valid_time_def)
  have de: "date_of e = d + 1"
    using assms by (intro date_of_combine[of "d + 1" ws e we]) (auto simp: valid_time_def)
  have gap: "combine d we < combine (d + 1) ws"
    using assms(1,2) by (simp add: combine_def valid_time_def algebra_simps)
  have o1: "overlap_seconds s e ws we d = (combine d we - s) div US_PER_SEC"
    using assms(5-8) gap by (auto simp: overlap_seconds_def Let_def max_def min_def)
  have o2: "overlap_seconds s e ws we (d + 1) = (e - combine (d + 1) ws) div US_PER_SEC"
    using assms(5-8) gap by (auto simp: overlap_seconds_def Let_def max_def min_def)
  have u: "[d..d + 1] = [d, d + 1]" by (simp add: upto_rec1)
  show ?thesis using assms(3,4,9) by (simp add: business_seconds_general ds de u o1 o2)
qed


text \<open>
  C3 (as amended).  For a window \<open>work_start < work_end\<close>, two datetimes that can be compared
  with \<open>end\<close> not before \<open>start\<close>, and \<open>s\<close> and \<open>e\<close> their readings in the zone (for naive
  datetimes their own readings, with \<open>s \<le> e\<close>): when \<open>e\<close> lies before 9999-12-31 the result is
  the sum, over the calendar days from the day of \<open>s\<close> to the day of \<open>e\<close>, of the positive
  overlap of the span with that day's window, each overlap cut down to whole seconds, and
  it is never negative.  A span inside one day's window yields the whole seconds of
  \<open>e - s\<close>; a span that meets no window yields 0; a span from one day's window into the
  next day's window yields the whole seconds of the first segment plus the whole seconds
  of the second.  When \<open>e\<close> lies on 9999-12-31 the function raises \<^verbatim>\<open>OverflowError\<close>.
\<close>

theorem business_seconds_clipping:
  assumes "valid_time ws" and "valid_time we" and "ws < we"
  shows "(span_in_zone start_dt end_dt tz s e \<and> date_of e < LAST_DAY \<longrightarrow>
            (\<exists>n. business_seconds_between start_dt end_dt tz ws we = Inr (Some n)
                 \<and> n = sum_list (map (overlap_seconds s e ws we) [date_of s..date_of e])
                 \<and> 0 \<le> n))
       \<and> (span_in_zone start1 end1 tz s1 e1
            \<and> combine d1 ws \<le> s1 \<and> s1 \<le> e1 \<and> e1 \<le> combine d1 we \<and> d1 < LAST_DAY \<longrightarrow>
            business_seconds_between start1 end1 tz ws we = Inr (Some ((e1 - s1) div US_PER_SEC)))
       \<and> (span_in_zone start2 end2 tz s2 e2 \<and> date_of e2 < LAST_DAY
            \<and> (\<forall>d. e2 \<le> combine d ws \<or> combine d we \<le> s2) \<longrightarrow>
            business_seconds_between start2 end2 tz ws we = Inr (Some 0))
       \<and> (span_in_zone start3 end3 tz s3 e3
            \<and> combine d3 ws \<le> s3 \<and> s3 \<le> combine d3 we
            \<and> combine (d3 + 1) ws \<le> e3 \<and> e3 \<le> combine (d3 + 1) we \<and> d3 + 1 < LAST_DAY \<longrightarrow>
            business_seconds_between start3 end3 tz ws we
              = Inr (Some ((combine d3 we - s3) div US_PER_SEC
                           + (e3 - combine (d3 + 1) ws) div US_PER_SEC)))
       \<and> (span_in_zone start4 end4 tz s4 e4 \<and> date_of s4 \<le> date_of e4
            \<and> LAST_DAY \<le> date_of e4 \<longrightarrow>
            business_seconds_between start4 end4 tz ws we = Inl OverflowError)
       \<and> span_in_zone (Naive a) (Naive b) tz s5 e5 = (a \<le> b \<and> s5 = a \<and> e5 = b)"
proof (intro conjI impI)
  assume h: "span_in_zone start_dt end_dt tz s e \<and> date_of e < LAST_DAY"
  then have "business_seconds_between start_dt end_dt tz ws we
               = Inr (Some (sum_list (map (overlap_seconds s e ws we) [date_of s..date_of e])))"
    using assms(3) by (intro business_seconds_general) auto
  moreover have "0 \<le> sum_list (map (overlap_seconds s e ws we) [date_of s..date_of e])"
    by (rule sum_list_nonneg_int) (rule overlap_seconds_nonneg)
  ultimately show "\<exists>n. business_seconds_between start_dt end_dt tz ws we = Inr (Some n)
                 \<and> n = sum_list (map (overlap_seconds s e ws we) [date_of s..date_of e])
                 \<and> 0 \<le> n"
    by blast
next
  assume "span_in_zone start1 end1 tz s1 e1
            \<and> combine d1 ws \<le> s1 \<and> s1 \<le> e1 \<and> e1 \<le> combine d1 we \<and> d1 < LAST_DAY"
  then show "business_seconds_between start1 end1 tz ws we
               = Inr (Some ((e1 - s1) div US_PER_SEC))"
    using assms by (intro inside_window[of ws we _ _ _ _ _ d1]) auto
next
  assume "span_in_zone start2 end2 tz s2 e2 \<and> date_of e2 < LAST_DAY
            \<and> (\<forall>d. e2 \<le> combine d ws \<or> combine d we \<le> s2)"
  then show "business_seconds_between start2 end2 tz ws we = Inr (Some 0)"
    using assms(3) by (intro outside_windows[of ws we _ _ _ s2 e2]) auto
next
  assume "span_in_zone start3 end3 tz s3 e3
            \<and> combine d3 ws \<le> s3 \<and> s3 \<le> combine d3 we
            \<and> combine (d3 + 1) ws \<le> e3 \<and> e3 \<le> combine (d3 + 1) we \<and> d3 + 1 < LAST_DAY"
  then show "business_seconds_between start3 end3 tz ws we
              = Inr (Some ((combine d3 we - s3) div US_PER_SEC
                           + (e3 - combine (d3 + 1) ws) div US_PER_SEC))"
    using assms by (intro crossing_midnight) auto
next
  assume "span_in_zone start4 end4 tz s4 e4 \<and> date_of s4 \<le> date_of e4
            \<and> LAST_DAY \<le> date_of e4"
  then show "business_seconds_between start4 end4 tz ws we = Inl OverflowError"
    using assms(3) by (intro business_seconds_overflow[of _ _ _ s4 e4]) auto
next
  show "span_in_zone (Naive a) (Naive b) tz s5 e5 = (a \<le> b \<and> s5 = a \<and> e5 = b)"
    by (rule span_in_zone_naive)
qed

theorem business_seconds_clipping_witness:
  "valid_time 36000000000 \<and> valid_time 82800000000 \<and> (36000000000 :: int) < 82800000000
   \<and> span_in_zone (Aware 25200000000 0 1) (Aware 25212000000 0 1) demo_zone
        36000000000 36012000000
   \<and> date_of 36012000000 < LAST_DAY
   \<and> business_seconds_between (Aware 25200000000 0 1) (Aware 25212000000 0 1) demo_zone
        36000000000 82800000000 = Inr (Some 12)
   \<and> span_in_zone (Naive 36000000000) (Naive 36012000000) demo_zone 36000000000 36012000000
   \<and> business_seconds_between (Naive 36000000000) (Naive 36012000000) demo_zone
        36000000000 82800000000 = Inr (Some 12)
   \<and> span_in_zone (Naive 84600000000) (Naive 118800000000) demo_zone 84600000000 118800000000
   \<and> (\<forall>d. 118800000000 \<le> combine d 36000000000 \<or> combine d 82800000000 \<le> 84600000000)
   \<and> business_seconds_between (Naive 84600000000) (Naive 118800000000) demo_zone
        36000000000 82800000000 = Inr (Some 0)
   \<and> span_in_zone (Naive 82799000000) (Naive 122403000000) demo_zone 82799000000 122403000000
   \<and> business_seconds_between (Naive 82799000000) (Naive 122403000000) demo_zone
        36000000000 82800000000 = Inr (Some 4)
   \<and> span_in_zone (Naive 253402250400000000) (Naive 253402250412000000) demo_zone
        253402250400000000 253402250412000000
   \<and> LAST_DAY \<le> date_of 253402250412000000
   \<and> business_seconds_between (Naive 253402250400000000) (Naive 253402250412000000) demo_zone
        36000000000 82800000000 = Inl OverflowError"
proof -
  have v: "valid_time 36000000000" "valid_time 82800000000" "(36000000000 :: int) < 82800000000"
    by (simp_all add: valid_time_def US_PER_DAY_def)
  have out: "\<forall>d. 118800000000 \<le> combine d 36000000000 \<or> combine d 82800000000 \<le> 84600000000"
    by (simp add: combine_def US_PER_DAY_def) arith
  have z0: "span_in_zone (Aware 25200000000 0 1) (Aware 25212000000 0 1) demo_zone
              36000000000 36012000000"
    by (simp add: span_in_zone_def demo_zone_def in_range_def DATETIME_MIN_def DATETIME_MAX_def
                  LAST_DAY_def US_PER_DAY_def)
  have z1: "span_in_zone (Naive 36000000000) (Naive 36012000000) demo_zone
              36000000000 36012000000"
    by (simp add: span_in_zone_def)
  have z2: "span_in_zone (Naive 84600000000) (Naive 118800000000) demo_zone
              84600000000 118800000000"
    by (simp add: span_in_zone_def)
  have z3: "span_in_zone (Naive 82799000000) (Naive 122403000000) demo_zone
              82799000000 122403000000"
    by (simp add: span_in_zone_def)
  have z4: "span_in_zone (Naive 253402250400000000) (Naive 253402250412000000) demo_zone
              253402250400000000 253402250412000000"
    by (simp add: span_in_zone_def)
  have d0: "date_of 36012000000 < LAST_DAY"
    by (simp add: date_of_def LAST_DAY_def US_PER_DAY_def)
  have d2: "date_of 118800000000 < LAST_DAY"
    by (simp add: date_of_def LAST_DAY_def US_PER_DAY_def)
  have d4: "date_of 253402250400000000 \<le> date_of 253402250412000000"
           "LAST_DAY \<le> date_of 253402250412000000"
    by (simp_all add: date_of_def LAST_DAY_def US_PER_DAY_def)
  note T = business_seconds_clipping [OF v, of
        "Aware 25200000000 0 1" "Aware 25212000000 0 1" demo_zone 36000000000 36012000000
        "Naive 36000000000" "Naive 36012000000" 36000000000 36012000000 0
        "Naive 84600000000" "Naive 118800000000" 84600000000 118800000000
        "Naive 82799000000" "Naive 122403000000" 82799000000 122403000000 0
        "Naive 253402250400000000" "Naive 253402250412000000"
        253402250400000000 253402250412000000]
  have h1: "combine 0 36000000000 \<le> 36000000000 \<and> (36000000000 :: int) \<le> 36012000000
            \<and> 36012000000 \<le> combine 0 82800000000 \<and> 0 < LAST_DAY"
    by (simp add: combine_def LAST_DAY_def)
  have h3: "combine 0 36000000000 \<le> 82799000000 \<and> 82799000000 \<le> combine 0 82800000000
            \<and> combine (0 + 1) 36000000000 \<le> 122403000000
            \<and> 122403000000 \<le> combine (0 + 1) 82800000000 \<and> 0 + 1 < LAST_DAY"
    by (simp add: combine_def US_PER_DAY_def LAST_DAY_def)
  have "\<exists>n. business_seconds_between (Aware 25200000000 0 1) (Aware 25212000000 0 1) demo_zone
               36000000000 82800000000 = Inr (Some n)
             \<and> n = sum_list (map (overlap_seconds 36000000000 36012000000 36000000000 82800000000)
                                 [date_of 36000000000..date_of 36012000000])
             \<and> 0 \<le> n"
    using T z0 d0 by blast
  moreover have "sum_list (map (overlap_seconds 36000000000 36012000000 36000000000 82800000000)
                      [date_of 36000000000..date_of 36012000000]) = 12"
    by code_simp
  ultimately have c0: "business_seconds_between (Aware 25200000000 0 1) (Aware 25212000000 0 1)
                         demo_zone 36000000000 82800000000 = Inr (Some 12)"
    by auto
  have "business_seconds_between (Naive 36000000000) (Naive 36012000000) demo_zone
          36000000000 82800000000
          = Inr (Some ((36012000000 - 36000000000) div US_PER_SEC))"
    using T z1 h1 by blast
  then have c1: "business_seconds_between (Naive 36000000000) (Naive 36012000000) demo_zone
                   36000000000 82800000000 = Inr (Some 12)"
    by (simp add: US_PER_SEC_def)
  have c2: "business_seconds_between (Naive 84600000000) (Naive 118800000000) demo_zone
              36000000000 82800000000 = Inr (Some 0)"
    using T z2 d2 out by blast
  have "business_seconds_between (Naive 82799000000) (Naive 122403000000) demo_zone
          36000000000 82800000000
          = Inr (Some ((combine 0 82800000000 - 82799000000) div US_PER_SEC
                       + (122403000000 - combine (0 + 1) 36000000000) div US_PER_SEC))"
    using T z3 h3 by blast
  then have c3: "business_seconds_between (Naive 82799000000) (Naive 122403000000) demo_zone
                   36000000000 82800000000 = Inr (Some 4)"
    by (simp add: combine_def US_PER_DAY_def US_PER_SEC_def)
  have c4: "business_seconds_between (Naive 253402250400000000) (Naive 253402250412000000)
              demo_zone 36000000000 82800000000 = Inl OverflowError"
    using T z4 d4 by blast
  show ?thesis
    by (intro conjI v z0 d0 c0 z1 c1 z2 out c2 z3 c3 z4 d4(2) c4)
qed

text \<open>
  As the specification states it, the property fails on datetimes with a fraction of a
  second: a span of 1.5 seconds inside the window 10:00 to 23:00 yields 1, and a span from
  22:59:59.4 to 10:00:00.6 of the next day, whose two segments add up to 1.2 seconds,
  yields 0.  It also fails on the last day of the calendar: for the 12 seconds from
  9999-12-31 10:00:00 the function raises \<^verbatim>\<open>OverflowError\<close> and returns no number.
\<close>

theorem business_seconds_subsecond_counterexample:
  "business_seconds_between (Naive 36000000000) (Naive 36001500000) demo_zone
     36000000000 82800000000 = Inr (Some 1)
   \<and> (36001500000 - 36000000000 :: int) = 1500000
   \<and> business_seconds_between (Naive 82799400000) (Naive 122400600000) demo_zone
       36000000000 82800000000 = Inr (Some 0)
   \<and> (82800000000 - 82799400000 :: int) + (122400600000 - 122400000000) = 1200000
   \<and> (253402250400000000 :: int) \<le> 253402250412000000
   \<and> combine LAST_DAY 36000000000 = 253402250400000000
   \<and> business_seconds_between (Naive 253402250400000000) (Naive 253402250412000000) demo_zone
       36000000000 82800000000 = Inl OverflowError"
  by code_simp

text \<open>
  C4 (as amended).  Comparing a naive datetime with an aware one raises \<^verbatim>\<open>TypeError\<close>.  For two
  datetimes of one kind the function returns \<^verbatim>\<open>None\<close> whenever \<open>end < start\<close>, whatever the
  window is.  Otherwise it raises \<^verbatim>\<open>OverflowError\<close> when an aware datetime cannot be converted
  to the zone; else the configuration error when \<open>work_end \<le> work_start\<close>; else
  \<^verbatim>\<open>OverflowError\<close> when the day loop runs and \<open>end\<close> lies on 9999-12-31; and in every other
  case it returns a number, which is not negative.  One of the three outcomes of the
  comparison always applies.
\<close>

theorem business_seconds_failure_modes:
  "(dt_less end_dt start_dt = Inl TypeError \<longrightarrow>
      business_seconds_between start_dt end_dt tz work_start work_end = Inl TypeError)
   \<and> (dt_less end_dt start_dt = Inr True \<longrightarrow>
      business_seconds_between start_dt end_dt tz work_start work_end = Inr None)
   \<and> (dt_less end_dt start_dt = Inr False
        \<and> (isl (to_tz start_dt tz) \<or> isl (to_tz end_dt tz)) \<longrightarrow>
      business_seconds_between start_dt end_dt tz work_start work_end = Inl OverflowError)
   \<and> (span_in_zone start_dt end_dt tz s e \<and> work_end \<le> work_start \<longrightarrow>
      business_seconds_between start_dt end_dt tz work_start work_end = Inl ValueError)
   \<and> (span_in_zone start_dt end_dt tz s e \<and> work_start < work_end
        \<and> date_of s \<le> date_of e \<and> LAST_DAY \<le> date_of e \<longrightarrow>
      business_seconds_between start_dt end_dt tz work_start work_end = Inl OverflowError)
   \<and> (span_in_zone start_dt end_dt tz s e \<and> work_start < work_end
        \<and> (date_of e < LAST_DAY \<or> date_of e < date_of s) \<longrightarrow>
      (\<exists>n. 0 \<le> n
          \<and> business_seconds_between start_dt end_dt tz work_start work_end = Inr (Some n)))
   \<and> (dt_less end_dt start_dt = Inl TypeError \<or> dt_less end_dt start_dt = Inr True
        \<or> dt_less end_dt start_dt = Inr False)"
proof (intro conjI impI)
  assume "dt_less end_dt start_dt = Inl TypeError"
  then show "business_seconds_between start_dt end_dt tz work_start work_end = Inl TypeError"
    by (simp add: business_seconds_between_def)
next
  assume "dt_less end_dt start_dt = Inr True"
  then show "business_seconds_between start_dt end_dt tz work_start work_end = Inr None"
    by (simp add: business_seconds_between_def)
next
  assume a: "dt_less end_dt start_dt = Inr False
        \<and> (isl (to_tz start_dt tz) \<or> isl (to_tz end_dt tz))"
  have err: "to_tz x tz = Inl err \<Longrightarrow> err = OverflowError" for x err
    by (cases x) (auto simp: Let_def split: if_splits)
  show "business_seconds_between start_dt end_dt tz work_start work_end = Inl OverflowError"
  proof (cases "to_tz start_dt tz")
    case (Inl e1)
    then show ?thesis using a err[OF Inl] by (simp add: business_seconds_between_def)
  next
    case (Inr s')
    then obtain e2 where e2: "to_tz end_dt tz = Inl e2" using a by (cases "to_tz end_dt tz") auto
    then show ?thesis using a Inr err[OF e2] by (simp add: business_seconds_between_def)
  qed
next
  assume "span_in_zone start_dt end_dt tz s e \<and> work_end \<le> work_start"
  then show "business_seconds_between start_dt end_dt tz work_start work_end = Inl ValueError"
    by (simp add: business_seconds_between_def span_in_zone_def)
next
  assume "span_in_zone start_dt end_dt tz s e \<and> work_start < work_end
        \<and> date_of s \<le> date_of e \<and> LAST_DAY \<le> date_of e"
  then show "business_seconds_between start_dt end_dt tz work_start work_end = Inl OverflowError"
    by (intro business_seconds_overflow[of _ _ _ s e]) auto
next
  assume a: "span_in_zone start_dt end_dt tz s e \<and> work_start < work_end
        \<and> (date_of e < LAST_DAY \<or> date_of e < date_of s)"
  then have "business_seconds_between start_dt end_dt tz work_start work_end
               = Inr (Some (sum_list (map (overlap_seconds s e work_start work_end)
                                          [date_of s..date_of e])))"
    by (intro business_seconds_general) auto
  moreover have "0 \<le> sum_list (map (overlap_seconds s e work_start work_end)
                                    [date_of s..date_of e])"
    by (rule sum_list_nonneg_int) (rule overlap_seconds_nonneg)
  ultimately show "\<exists>n. 0 \<le> n
      \<and> business_seconds_between start_dt end_dt tz work_start work_end = Inr (Some n)"
    by blast
next
  show "dt_less end_dt start_dt = Inl TypeError \<or> dt_less end_dt start_dt = Inr True
        \<or> dt_less end_dt start_dt = Inr False"
    by (cases end_dt; cases start_dt) auto
qed


theorem business_seconds_failure_modes_witness:
  "dt_less (Aware 10 0 1) (Naive 5) = Inl TypeError
   \<and> business_seconds_between (Naive 5) (Aware 10 0 1) demo_zone 36000000000 82800000000
       = Inl TypeError
   \<and> dt_less (Naive 5) (Naive 10) = Inr True
   \<and> business_seconds_between (Naive 10) (Naive 5) demo_zone 36000000000 82800000000 = Inr None
   \<and> dt_less (Aware 253402300799999999 (- 3600000000) 1)
               (Aware 253402300799999999 (- 3600000000) 1) = Inr False
   \<and> isl (to_tz (Aware 253402300799999999 (- 3600000000) 1) demo_zone)
   \<and> business_seconds_between (Aware 253402300799999999 (- 3600000000) 1)
        (Aware 253402300799999999 (- 3600000000) 1) demo_zone 36000000000 82800000000
       = Inl OverflowError
   \<and> span_in_zone (Naive 5) (Naive 10) demo_zone 5 10
   \<and> (36000000000 :: int) \<le> 82800000000
   \<and> business_seconds_between (Naive 5) (Naive 10) demo_zone 82800000000 36000000000
       = Inl ValueError
   \<and> span_in_zone (Naive 253402250400000000) (Naive 253402250412000000) demo_zone
        253402250400000000 253402250412000000
   \<and> date_of 253402250400000000 \<le> date_of 253402250412000000
   \<and> LAST_DAY \<le> date_of 253402250412000000
   \<and> business_seconds_between (Naive 253402250400000000) (Naive 253402250412000000) demo_zone
        36000000000 82800000000 = Inl OverflowError
   \<and> (36000000000 :: int) < 82800000000
   \<and> date_of 10 < LAST_DAY
   \<and> (\<exists>n. 0 \<le> n
         \<and> business_seconds_between (Naive 5) (Naive 10) demo_zone 36000000000 82800000000
             = Inr (Some n))"
proof -
  have a1: "dt_less (Aware 10 0 1) (Naive 5) = Inl TypeError" by simp
  have a2: "dt_less (Naive 5) (Naive 10) = Inr True" by simp
  have a3: "dt_less (Aware 253402300799999999 (- 3600000000) 1)
               (Aware 253402300799999999 (- 3600000000) 1) = Inr False" by simp
  have b3: "isl (to_tz (Aware 253402300799999999 (- 3600000000) 1) demo_zone)"
    by (simp add: demo_zone_def in_range_def DATETIME_MIN_def DATETIME_MAX_def LAST_DAY_def
                  US_PER_DAY_def)
  have z4: "span_in_zone (Naive 5) (Naive 10) demo_zone 5 10"
    by (simp add: span_in_zone_def)
  have w4: "(36000000000 :: int) \<le> 82800000000" by simp
  have z5: "span_in_zone (Naive 253402250400000000) (Naive 253402250412000000) demo_zone
              253402250400000000 253402250412000000"
    by (simp add: span_in_zone_def)
  have d5: "date_of 253402250400000000 \<le> date_of 253402250412000000"
           "LAST_DAY \<le> date_of 253402250412000000"
    by (simp_all add: date_of_def LAST_DAY_def US_PER_DAY_def)
  have w6: "(36000000000 :: int) < 82800000000" by simp
  have d6: "date_of 10 < LAST_DAY"
    by (simp add: date_of_def LAST_DAY_def US_PER_DAY_def)
  have c1: "business_seconds_between (Naive 5) (Aware 10 0 1) demo_zone 36000000000 82800000000
              = Inl TypeError"
    using business_seconds_failure_modes
            [of "Aware 10 0 1" "Naive 5" demo_zone 36000000000 82800000000 0 0] a1
    by blast
  have c2: "business_seconds_between (Naive 10) (Naive 5) demo_zone 36000000000 82800000000
              = Inr None"
    using business_seconds_failure_modes
            [of "Naive 5" "Naive 10" demo_zone 36000000000 82800000000 0 0] a2
    by blast
  have c3: "business_seconds_between (Aware 253402300799999999 (- 3600000000) 1)
              (Aware 253402300799999999 (- 3600000000) 1) demo_zone 36000000000 82800000000
              = Inl OverflowError"
    using business_seconds_failure_modes
            [of "Aware 253402300799999999 (- 3600000000) 1"
                "Aware 253402300799999999 (- 3600000000) 1"
                demo_zone 36000000000 82800000000 0 0] a3 b3
    by blast
  have c4: "business_seconds_between (Naive 5) (Naive 10) demo_zone 82800000000 36000000000
              = Inl ValueError"
    using business_seconds_failure_modes
            [of "Naive 10" "Naive 5" demo_zone 82800000000 36000000000 5 10] z4 w4
    by blast
  have c5: "business_seconds_between (Naive 253402250400000000) (Naive 253402250412000000)
              demo_zone 36000000000 82800000000 = Inl OverflowError"
    using business_seconds_failure_modes
            [of "Naive 253402250412000000" "Naive 253402250400000000" demo_zone
                36000000000 82800000000 253402250400000000 253402250412000000] z5 w6 d5
    by blast
  have c6: "\<exists>n. 0 \<le> n
         \<and> business_seconds_between (Naive 5) (Naive 10) demo_zone 36000000000 82800000000
             = Inr (Some n)"
    using business_seconds_failure_modes
            [of "Naive 10" "Naive 5" demo_zone 36000000000 82800000000 5 10] z4 w6 d6
    by blast
  show ?thesis
    by (intro conjI a1 c1 a2 c2 a3 b3 c3 z4 w4 c4 z5 d5 c5 w6 d6 c6)
qed

text \<open>
  As the specification states it, the property fails in three ways.  Where both conditions
  hold, with \<open>end < start\<close> and the window 23:00 to 10:00, the function returns \<^verbatim>\<open>None\<close> and
  raises nothing.  With the window 10:00 to 23:00 and \<open>start \<le> end\<close> on 9999-12-31 it raises
  \<^verbatim>\<open>OverflowError\<close>, and with a naive \<open>start\<close> and an aware \<open>end\<close> it raises \<^verbatim>\<open>TypeError\<close>: two
  more ways to fail.
\<close>

theorem business_seconds_precedence_counterexample:
  "(36000000000 :: int) \<le> 82800000000
   \<and> business_seconds_between (Naive 10) (Naive 5) demo_zone 82800000000 36000000000 = Inr None
   \<and> business_seconds_between (Naive 10) (Naive 5) demo_zone 82800000000 36000000000
       \<noteq> Inl ValueError
   \<and> (36000000000 :: int) < 82800000000
   \<and> (253402250400000000 :: int) \<le> 253402250412000000
   \<and> date_of 253402250412000000 = LAST_DAY
   \<and> business_seconds_between (Naive 253402250400000000) (Naive 253402250412000000) demo_zone
        36000000000 82800000000 = Inl OverflowError
   \<and> business_seconds_between (Naive 5) (Aware 10 0 1) demo_zone 36000000000 82800000000
       = Inl TypeError"
  by code_simp

subsection \<open>Per-chat metrics\<close>

lemma find_sorted_Min:
  "sorted ys \<Longrightarrow>
     find P ys = (if {t \<in> set ys. P t} = {} then None else Some (Min {t \<in> set ys. P t}))"
proof (induction ys)
  case Nil
  then show ?case by simp
next
  case (Cons y ys)
  show ?case
  proof (cases "P y")
    case True
    have "Min {t \<in> set (y # ys). P t} = y"
    proof (rule Min_eqI)
      show "finite {t \<in> set (y # ys). P t}" by simp
      show "y \<in> {t \<in> set (y # ys). P t}" using True by simp
      fix z assume "z \<in> {t \<in> set (y # ys). P t}"
      then show "y \<le> z" using Cons.prems by auto
    qed
    moreover have "{t \<in> set (y # ys). P t} \<noteq> {}" using True by auto
    ultimately show ?thesis using True by simp
  next
    case False
    then have "{t \<in> set (y # ys). P t} = {t \<in> set ys. P t}" by auto
    then show ?thesis using False Cons by simp
  qed
qed

lemma ccm_times:
  assumes "compute_chat_metrics P ms tz ws we slow = Inr cm"
  shows "first_inbound_at cm = (if inbound_times_of ms = [] then None else Some (Min (set (inbound_times_of ms))))"
    and "first_outbound_at cm =
           (case first_inbound_at cm of None \<Rightarrow> None
            | Some fi \<Rightarrow> find (\<lambda>t. fi \<le> t) (sort (outbound_times_of ms)))"
    and "last_inbound_at cm = (if inbound_times_of ms = [] then None else Some (Max (set (inbound_times_of ms))))"
    and "last_outbound_at cm = (if outbound_times_of ms = [] then None else Some (Max (set (outbound_times_of ms))))"
    and "unanswered_inbound cm =
           (case last_inbound_at cm of None \<Rightarrow> 0
            | Some li \<Rightarrow>
               (case last_outbound_at cm of
                  None \<Rightarrow> length (inbound_times_of ms)
                | Some cutoff \<Rightarrow>
                    if li > cutoff
                    then length (filter (\<lambda>t. t > cutoff) (inbound_times_of ms)) else 0))"
  using assms
  unfolding compute_chat_metrics_def Let_def inbound_times_of_def outbound_times_of_def
  by (auto split: sum.splits)


lemma first_outbound_char:
  assumes "compute_chat_metrics P ms tz ws we slow = Inr cm"
  shows "first_inbound_at cm
           = (if inbound_times_of ms = [] then None else Some (Min (set (inbound_times_of ms))))
       \<and> first_outbound_at cm
           = (if inbound_times_of ms = []
                 \<or> {t \<in> set (outbound_times_of ms). Min (set (inbound_times_of ms)) \<le> t} = {}
              then None
              else Some (Min {t \<in> set (outbound_times_of ms). Min (set (inbound_times_of ms)) \<le> t}))
       \<and> (\<forall>t. first_outbound_at cm = Some t \<longrightarrow>
              t \<in> set (outbound_times_of ms)
              \<and> (\<exists>fi. first_inbound_at cm = Some fi \<and> fi \<le> t))"
proof -
  note f = ccm_times[OF assms]
  let ?fi = "Min (set (inbound_times_of ms))"
  let ?S = "{t \<in> set (outbound_times_of ms). ?fi \<le> t}"
  have fnd: "find (\<lambda>t. ?fi \<le> t) (sort (outbound_times_of ms))
               = (if ?S = {} then None else Some (Min ?S))"
    using find_sorted_Min[of "sort (outbound_times_of ms)" "\<lambda>t. ?fi \<le> t"] by simp
  have a: "first_inbound_at cm = (if inbound_times_of ms = [] then None else Some ?fi)"
    by (rule f(1))
  have b: "first_outbound_at cm
             = (if inbound_times_of ms = [] \<or> ?S = {} then None else Some (Min ?S))"
    using f(2) a fnd by (cases "inbound_times_of ms = []") simp_all
  have c: "t \<in> set (outbound_times_of ms) \<and> (\<exists>fi. first_inbound_at cm = Some fi \<and> fi \<le> t)"
    if t: "first_outbound_at cm = Some t" for t
  proof -
    have ne: "inbound_times_of ms \<noteq> []" "?S \<noteq> {}" and tm: "t = Min ?S"
      using b t by (auto split: if_splits)
    have "finite ?S" by simp
    then have "Min ?S \<in> ?S" using ne(2) by (rule Min_in)
    then show ?thesis using tm a ne(1) by simp
  qed
  show ?thesis using a b c by blast
qed

lemma unanswered_char:
  assumes "compute_chat_metrics P ms tz ws we slow = Inr cm"
  shows "last_outbound_at cm
           = (if outbound_times_of ms = [] then None else Some (Max (set (outbound_times_of ms))))
       \<and> unanswered_inbound cm
           = (case last_outbound_at cm of
                None \<Rightarrow> length (inbound_times_of ms)
              | Some lo \<Rightarrow> length (filter (\<lambda>t. lo < t) (inbound_times_of ms)))"
proof -
  note f = ccm_times[OF assms]
  show ?thesis
  proof (cases "inbound_times_of ms = []")
    case True
    then show ?thesis using f(3,4,5) by (simp split: option.splits)
  next
    case ne: False
    show ?thesis
    proof (cases "last_outbound_at cm")
      case None
      then show ?thesis using f(3,4,5) ne by simp
    next
      case (Some lo)
      have "filter (\<lambda>t. lo < t) (inbound_times_of ms) = []"
        if "\<not> lo < Max (set (inbound_times_of ms))"
      proof -
        have "\<not> lo < t" if "t \<in> set (inbound_times_of ms)" for t
        proof -
          have "t \<le> Max (set (inbound_times_of ms))" using that by simp
          then show ?thesis using \<open>\<not> lo < Max (set (inbound_times_of ms))\<close> by linarith
        qed
        then show ?thesis by (simp add: filter_empty_conv)
      qed
      then show ?thesis
        using f(3,4,5) ne Some
        by (cases "lo < Max (set (inbound_times_of ms))")
           (simp_all del: Max_gr_iff Max_less_iff split: if_splits)
    qed
  qed
qed


lemma bsb_total:
  assumes "ws < we" "date_of b < LAST_DAY"
  shows "\<exists>r. business_seconds_between (Naive a) (Naive b) tz ws we = Inr r"
  using assms by (cases "b < a") (simp_all add: business_seconds_between_def day_loop_sum)

lemma case_sum_Inr_ex:
  "\<exists>r. X = Inr r \<Longrightarrow> \<exists>cm. (case X of Inl e \<Rightarrow> Inl e | Inr r \<Rightarrow> Inr (F r)) = Inr cm"
  by auto

lemma case_pair_Inr_ex:
  assumes "\<And>a b. y = Some b \<Longrightarrow> \<exists>r. f a b = Inr r"
  shows "\<exists>r. (case (x, y) of (Some fi, Some fo) \<Rightarrow> f fi fo | _ \<Rightarrow> Inr None) = Inr r"
  using assms by (cases x; cases y) simp_all

lemma find_mem: "find Q xs = Some x \<Longrightarrow> x \<in> set xs"
  by (induction xs) (auto split: if_splits)

lemma first_outbound_mem:
  assumes "(case x of None \<Rightarrow> None | Some fi \<Rightarrow> find (\<lambda>t. t \<ge> fi) (sort ts)) = Some b"
  shows "b \<in> set ts"
proof -
  obtain fi where "find (\<lambda>t. t \<ge> fi) (sort ts) = Some b"
    using assms by (cases x) auto
  then have "b \<in> set (sort ts)" by (rule find_mem)
  then show ?thesis by simp
qed

lemma ccm_total:
  assumes "ws < we" and "list_all (\<lambda>t. date_of t < LAST_DAY) (outbound_times_of ms)"
  shows "\<exists>cm. compute_chat_metrics P ms tz ws we slow = Inr cm"
  unfolding compute_chat_metrics_def Let_def
proof (rule case_sum_Inr_ex, rule case_pair_Inr_ex)
  fix a b
  assume "(case if parsed_times (filter (\<lambda>m. m_direction m = ''in'') ms) \<noteq> []
                then Some (Min (set (parsed_times (filter (\<lambda>m. m_direction m = ''in'') ms))))
                else None of
             None \<Rightarrow> None
           | Some fi \<Rightarrow> find (\<lambda>t. t \<ge> fi)
                         (sort (parsed_times (filter (\<lambda>m. m_direction m = ''out'') ms)))) = Some b"
  then have "b \<in> set (outbound_times_of ms)"
    unfolding outbound_times_of_def by (rule first_outbound_mem)
  then have "date_of b < LAST_DAY"
    using assms(2) by (simp add: list_all_iff)
  with assms(1) show "\<exists>r. business_seconds_between (Naive a) (Naive b) tz ws we = Inr r"
    by (rule bsb_total)
qed

text \<open>
  The call of the business clock carries its failures over: a chat whose first reply lies
  on 9999-12-31 gets no metrics.
\<close>

lemma ccm_last_day:
  "compute_chat_metrics ascii_rule_patterns
     (boundary_chat 253402250400000000 253402250460000000 253402250490000000 253402250520000000)
     demo_zone 36000000000 82800000000 600
     = Inl OverflowError"
  by code_simp

lemma demo_outreach_eval:
  "compute_chat_metrics ascii_rule_patterns demo_outreach_chat demo_zone
       36000000000 82800000000 600
     = Inr demo_outreach_metrics"
  by code_simp

lemma demo_boundary_eval:
  "compute_chat_metrics ascii_rule_patterns
     (boundary_chat 36000000000 36060000000 36090000000 36120000000) demo_zone
     36000000000 82800000000 600
     = Inr demo_boundary_metrics"
  by code_simp

lemma boundary_times:
  "inbound_times_of (boundary_chat t1 t2 t25 t3) = [t1, t2, t3]"
  "outbound_times_of (boundary_chat t1 t2 t25 t3) = [t25]"
  by (simp_all add: inbound_times_of_def outbound_times_of_def boundary_chat_def parsed_times_def
        List.map_filter_simps)

text \<open>
  C5.  Whenever the work window is valid and no outbound timestamp lies on 9999-12-31,
  \<^verbatim>\<open>compute_chat_metrics\<close> returns metrics, and in the metrics it returns \<open>first_inbound_at\<close> is the least parseable inbound timestamp and
  \<open>first_outbound_at\<close> is the least outbound timestamp that is at or after it: it is \<^verbatim>\<open>None\<close>
  when there is no inbound timestamp or no outbound timestamp at or after the first
  inbound one, and an outbound timestamp before the first inbound one is never selected.
\<close>

theorem first_outbound_after_first_inbound:
  "(work_start < work_end \<and> list_all (\<lambda>t. date_of t < LAST_DAY) (outbound_times_of ms) \<longrightarrow>
      (\<exists>cm'. compute_chat_metrics P ms tz work_start work_end slow = Inr cm'))
   \<and> (compute_chat_metrics P ms tz work_start work_end slow = Inr cm \<longrightarrow>
        first_inbound_at cm
          = (if inbound_times_of ms = [] then None else Some (Min (set (inbound_times_of ms))))
        \<and> first_outbound_at cm
          = (if inbound_times_of ms = []
                \<or> {t \<in> set (outbound_times_of ms). Min (set (inbound_times_of ms)) \<le> t} = {}
             then None
             else Some (Min {t \<in> set (outbound_times_of ms). Min (set (inbound_times_of ms)) \<le> t}))
        \<and> (\<forall>t. first_outbound_at cm = Some t \<longrightarrow>
               t \<in> set (outbound_times_of ms)
               \<and> (\<exists>fi. first_inbound_at cm = Some fi \<and> fi \<le> t)))"
proof (rule conjI)
  show "work_start < work_end \<and> list_all (\<lambda>t. date_of t < LAST_DAY) (outbound_times_of ms) \<longrightarrow>
          (\<exists>cm'. compute_chat_metrics P ms tz work_start work_end slow = Inr cm')"
    by (rule impI) (rule ccm_total, simp_all)
qed (rule impI, rule first_outbound_char)

theorem first_outbound_after_first_inbound_witness:
  "(36000000000 :: int) < 82800000000
   \<and> list_all (\<lambda>t. date_of t < LAST_DAY) (outbound_times_of demo_outreach_chat)
   \<and> compute_chat_metrics ascii_rule_patterns demo_outreach_chat demo_zone
       36000000000 82800000000 600
        = Inr demo_outreach_metrics
   \<and> first_outbound_at demo_outreach_metrics = Some 36060000000
   \<and> 36060000000 \<in> set (outbound_times_of demo_outreach_chat)
   \<and> (\<exists>fi. first_inbound_at demo_outreach_metrics = Some fi \<and> fi \<le> 36060000000)"
proof -
  note T = first_outbound_after_first_inbound
             [where work_start = 36000000000 and work_end = 82800000000
                and P = ascii_rule_patterns and ms = demo_outreach_chat and tz = demo_zone
                and slow = 600 and cm = demo_outreach_metrics,
              THEN conjunct2, rule_format, OF demo_outreach_eval]
  have lt: "(36000000000 :: int) < 82800000000" by simp
  have ld: "list_all (\<lambda>t. date_of t < LAST_DAY) (outbound_times_of demo_outreach_chat)"
    by code_simp
  have a: "first_outbound_at demo_outreach_metrics = Some 36060000000"
    by (simp add: demo_outreach_metrics_def)
  note U = T [THEN conjunct2, THEN conjunct2, rule_format, OF a]
  show ?thesis
    by (intro conjI lt ld demo_outreach_eval a U [THEN conjunct1] U [THEN conjunct2])
qed

text \<open>
  C6.  \<open>last_outbound_at\<close> is the greatest parseable outbound timestamp, and
  \<open>unanswered_inbound\<close> is the number of parseable inbound timestamps strictly after it, or
  the number of all parseable inbound timestamps when there is no outbound timestamp.  A
  chat with inbound messages at \<open>t1 < t2 < t3\<close> and one outbound message between \<open>t2\<close> and
  \<open>t3\<close> reports 1: whatever metrics the function returns for it say 1, and it returns
  metrics when the window is valid and the outbound message lies before 9999-12-31.
\<close>

theorem unanswered_inbound_count:
  "(compute_chat_metrics P ms tz work_start work_end slow = Inr cm \<longrightarrow>
      last_outbound_at cm
        = (if outbound_times_of ms = [] then None else Some (Max (set (outbound_times_of ms))))
      \<and> unanswered_inbound cm
        = (case last_outbound_at cm of
             None \<Rightarrow> length (inbound_times_of ms)
           | Some lo \<Rightarrow> length (filter (\<lambda>t. lo < t) (inbound_times_of ms))))
   \<and> (t1 < t2 \<and> t2 < t25 \<and> t25 < t3
        \<and> compute_chat_metrics P (boundary_chat t1 t2 t25 t3) tz work_start work_end slow = Inr cm2
        \<longrightarrow> unanswered_inbound cm2 = 1)
   \<and> (t1 < t2 \<and> t2 < t25 \<and> t25 < t3 \<and> work_start < work_end \<and> date_of t25 < LAST_DAY \<longrightarrow>
        (\<exists>cm'. compute_chat_metrics P (boundary_chat t1 t2 t25 t3) tz work_start work_end slow = Inr cm'
               \<and> unanswered_inbound cm' = 1))"
proof (intro conjI)
  show "t1 < t2 \<and> t2 < t25 \<and> t25 < t3
        \<and> compute_chat_metrics P (boundary_chat t1 t2 t25 t3) tz work_start work_end slow = Inr cm2
        \<longrightarrow> unanswered_inbound cm2 = 1"
  proof
    assume a: "t1 < t2 \<and> t2 < t25 \<and> t25 < t3
        \<and> compute_chat_metrics P (boundary_chat t1 t2 t25 t3) tz work_start work_end slow = Inr cm2"
    then have
      c: "compute_chat_metrics P (boundary_chat t1 t2 t25 t3) tz work_start work_end slow = Inr cm2"
      by simp
    show "unanswered_inbound cm2 = 1"
      using unanswered_char [OF c] a by (simp add: boundary_times)
  qed
  show "t1 < t2 \<and> t2 < t25 \<and> t25 < t3 \<and> work_start < work_end \<and> date_of t25 < LAST_DAY \<longrightarrow>
        (\<exists>cm'. compute_chat_metrics P (boundary_chat t1 t2 t25 t3) tz work_start work_end slow = Inr cm'
               \<and> unanswered_inbound cm' = 1)"
  proof
    assume a: "t1 < t2 \<and> t2 < t25 \<and> t25 < t3 \<and> work_start < work_end \<and> date_of t25 < LAST_DAY"
    then have "\<exists>cm'. compute_chat_metrics P (boundary_chat t1 t2 t25 t3) tz work_start work_end slow
                       = Inr cm'"
      by (intro ccm_total) (simp_all add: boundary_times)
    then obtain cm' where
      c: "compute_chat_metrics P (boundary_chat t1 t2 t25 t3) tz work_start work_end slow = Inr cm'"
      by blast
    have "unanswered_inbound cm' = 1"
      using unanswered_char [OF c] a by (simp add: boundary_times)
    then show "\<exists>cm'. compute_chat_metrics P (boundary_chat t1 t2 t25 t3) tz work_start work_end slow
                        = Inr cm' \<and> unanswered_inbound cm' = 1"
      using c by blast
  qed
qed (rule impI, rule unanswered_char)

theorem unanswered_inbound_count_witness:
  "compute_chat_metrics ascii_rule_patterns
     (boundary_chat 36000000000 36060000000 36090000000 36120000000) demo_zone
     36000000000 82800000000 600
     = Inr demo_boundary_metrics
   \<and> unanswered_inbound demo_boundary_metrics = 1
   \<and> (36000000000 :: int) < 36060000000 \<and> (36060000000 :: int) < 36090000000
   \<and> (36090000000 :: int) < 36120000000 \<and> (36000000000 :: int) < 82800000000
   \<and> date_of 36090000000 < LAST_DAY
   \<and> (\<exists>cm'. compute_chat_metrics ascii_rule_patterns
               (boundary_chat 36000000000 36060000000 36090000000 36120000000) demo_zone
               36000000000 82800000000 600 = Inr cm'
             \<and> unanswered_inbound cm' = 1)"
proof -
  note T = unanswered_inbound_count
             [where P = ascii_rule_patterns
                and ms = "boundary_chat 36000000000 36060000000 36090000000 36120000000"
                and tz = demo_zone and work_start = 36000000000 and work_end = 82800000000
                and slow = 600 and cm = demo_boundary_metrics and ?cm2.0 = demo_boundary_metrics
                and ?t1.0 = 36000000000 and ?t2.0 = 36060000000 and ?t25.0 = 36090000000
                and ?t3.0 = 36120000000]
  have h: "(36000000000 :: int) < 36060000000 \<and> (36060000000 :: int) < 36090000000
           \<and> (36090000000 :: int) < 36120000000 \<and> (36000000000 :: int) < 82800000000
           \<and> date_of 36090000000 < LAST_DAY"
    by (simp add: date_of_def LAST_DAY_def US_PER_DAY_def)
  have u: "unanswered_inbound demo_boundary_metrics = 1"
    by (simp add: demo_boundary_metrics_def)
  have e: "\<exists>cm'. compute_chat_metrics ascii_rule_patterns
               (boundary_chat 36000000000 36060000000 36090000000 36120000000) demo_zone
               36000000000 82800000000 600 = Inr cm'
             \<and> unanswered_inbound cm' = 1"
    using T [THEN conjunct2, THEN conjunct2] h by (rule mp)
  show ?thesis using demo_boundary_eval u h e by (intro conjI) simp_all
qed

lemma map_filter_cong2:
  assumes "map f xs = map f ys" "map g xs = map g ys"
  shows "map g (filter (\<lambda>m. Q (f m)) xs) = map g (filter (\<lambda>m. Q (f m)) ys)"
proof -
  have "length xs = length ys" using assms(1) by (rule map_eq_imp_length_eq)
  then show ?thesis using assms
    by (induction xs ys rule: list_induct2) auto
qed

lemma map_filter_as_map: "List.map_filter f xs = List.map_filter id (map f xs)"
  by (induction xs) (auto split: option.splits)

lemma parsed_times_cong:
  assumes "map m_direction ms = map m_direction ms'" "map m_sentAt ms = map m_sentAt ms'"
  shows "parsed_times (filter (\<lambda>m. m_direction m = d) ms)
           = parsed_times (filter (\<lambda>m. m_direction m = d) ms')"
proof -
  have "map m_sentAt (filter (\<lambda>m. m_direction m = d) ms)
          = map m_sentAt (filter (\<lambda>m. m_direction m = d) ms')"
    using map_filter_cong2[OF assms, of "\<lambda>x. x = d"] .
  then show ?thesis
    unfolding parsed_times_def
    by (subst (1 2) map_filter_as_map) simp
qed

lemma filter_length_cong:
  assumes "map m_direction ms = map m_direction ms'"
  shows "length (filter (\<lambda>m. m_direction m = d) ms) = length (filter (\<lambda>m. m_direction m = d) ms')"
proof -
  have "length ms = length ms'" using assms by (rule map_eq_imp_length_eq)
  then show ?thesis using assms
    by (induction ms ms' rule: list_induct2) auto
qed

text \<open>
  C9.  Two message lists with the same directions and timestamps, whose first six outbound
  texts agree and whose first six inbound texts agree, get the same result from
  \<^verbatim>\<open>compute_chat_metrics\<close>, the advice list included: the texts of later messages are
  not read.
\<close>

theorem advice_ignores_late_texts:
  assumes "map m_direction ms = map m_direction ms'"
    and "map m_sentAt ms = map m_sentAt ms'"
    and "take 6 (map m_text (filter (\<lambda>m. m_direction m = ''out'') ms))
           = take 6 (map m_text (filter (\<lambda>m. m_direction m = ''out'') ms'))"
    and "take 6 (map m_text (filter (\<lambda>m. m_direction m = ''in'') ms))
           = take 6 (map m_text (filter (\<lambda>m. m_direction m = ''in'') ms'))"
  shows "compute_chat_metrics P ms tz ws we slow = compute_chat_metrics P ms' tz ws we slow"
  unfolding compute_chat_metrics_def
  by (simp only: Let_def parsed_times_cong[OF assms(1,2)] filter_length_cong[OF assms(1)] assms(3,4))


theorem advice_ignores_late_texts_witness:
  "map m_direction (demo_long_chat ''a?'') = map m_direction (demo_long_chat ''b'')
   \<and> map m_sentAt (demo_long_chat ''a?'') = map m_sentAt (demo_long_chat ''b'')
   \<and> take 6 (map m_text (filter (\<lambda>m. m_direction m = ''out'') (demo_long_chat ''a?'')))
        = take 6 (map m_text (filter (\<lambda>m. m_direction m = ''out'') (demo_long_chat ''b'')))
   \<and> take 6 (map m_text (filter (\<lambda>m. m_direction m = ''in'') (demo_long_chat ''a?'')))
        = take 6 (map m_text (filter (\<lambda>m. m_direction m = ''in'') (demo_long_chat ''b'')))
   \<and> demo_long_chat ''a?'' \<noteq> demo_long_chat ''b''
   \<and> compute_chat_metrics ascii_rule_patterns (demo_long_chat ''a?'') demo_zone
          36000000000 82800000000 600
        = compute_chat_metrics ascii_rule_patterns (demo_long_chat ''b'') demo_zone
            36000000000 82800000000 600"
proof -
  have h: "map m_direction (demo_long_chat ''a?'') = map m_direction (demo_long_chat ''b'')"
    "map m_sentAt (demo_long_chat ''a?'') = map m_sentAt (demo_long_chat ''b'')"
    "take 6 (map m_text (filter (\<lambda>m. m_direction m = ''out'') (demo_long_chat ''a?'')))
        = take 6 (map m_text (filter (\<lambda>m. m_direction m = ''out'') (demo_long_chat ''b'')))"
    "take 6 (map m_text (filter (\<lambda>m. m_direction m = ''in'') (demo_long_chat ''a?'')))
        = take 6 (map m_text (filter (\<lambda>m. m_direction m = ''in'') (demo_long_chat ''b'')))"
    by (simp_all add: demo_long_chat_def)
  have d: "demo_long_chat ''a?'' \<noteq> demo_long_chat ''b''"
    by (simp add: demo_long_chat_def)
  show ?thesis
    by (intro conjI h d advice_ignores_late_texts [OF h])
qed

subsection \<open>Behaviour digest: candidates, ranking and snippets\<close>

lemma entries_setdefault_append:
  "entries (setdefault_append d k v) k' = (if k' = k then entries d k @ [v] else entries d k')"
  by (simp add: entries_def setdefault_append_def split: option.splits)

lemma process_chat_cand_good:
  "cand_good (process_chat P T st c) =
     (if responded (snd c) \<and> next_step P (snd c) \<and> questions P (snd c) \<ge> 1
         \<and> (case chat_first_reply_sec T (fst c) of None \<Rightarrow> False | Some v \<Rightarrow> v > 0)
         \<and> the (chat_first_reply_sec T (fst c)) \<le> 10 * 60
      then setdefault_append (cand_good st) (fst (resolve_manager T (fst c) (snd c)))
             (fst c, 10 * 60 - the (chat_first_reply_sec T (fst c)),
              fst (chat_snippet (snd c)), snd (chat_snippet (snd c)))
      else cand_good st)"
  by (simp add: process_chat_def Let_def)

lemma process_chat_cand_slow:
  "cand_slow (process_chat P T st c) =
     (if (case chat_first_reply_sec T (fst c) of None \<Rightarrow> False | Some v \<Rightarrow> v > 0)
         \<and> the (chat_first_reply_sec T (fst c)) \<ge> 30 * 60
      then setdefault_append (cand_slow st) (fst (resolve_manager T (fst c) (snd c)))
             (fst c, the (chat_first_reply_sec T (fst c)),
              fst (chat_snippet (snd c)), snd (chat_snippet (snd c)))
      else cand_slow st)"
  by (simp add: process_chat_def Let_def)

lemma process_chat_first_reply_values:
  "first_reply_values_by_mgr (process_chat P T st c) =
     (if (case chat_first_reply_sec T (fst c) of None \<Rightarrow> False | Some v \<Rightarrow> v > 0)
      then setdefault_append (first_reply_values_by_mgr st) (fst (resolve_manager T (fst c) (snd c)))
             (the (chat_first_reply_sec T (fst c)))
      else first_reply_values_by_mgr st)"
  by (simp add: process_chat_def Let_def)

lemma step_good:
  "set (entries (cand_good (process_chat P T st c)) mid)
     = set (entries (cand_good st) mid) \<union> {x. good_candidate P T mid c x}"
  by (auto simp: process_chat_cand_good entries_setdefault_append good_candidate_def Let_def
           split: option.splits)

lemma step_slow:
  "set (entries (cand_slow (process_chat P T st c)) mid)
     = set (entries (cand_slow st) mid) \<union> {x. slow_candidate T mid c x}"
  by (auto simp: process_chat_cand_slow entries_setdefault_append slow_candidate_def Let_def
           split: option.splits)

lemma step_values:
  "set (entries (first_reply_values_by_mgr (process_chat P T st c)) mid)
     = set (entries (first_reply_values_by_mgr st) mid) \<union> {v. first_reply_sample T mid c v}"
  by (auto simp: process_chat_first_reply_values entries_setdefault_append first_reply_sample_def
           split: option.splits)

lemma fold_good:
  "set (entries (cand_good (foldl (process_chat P T) st cs)) mid)
     = set (entries (cand_good st) mid) \<union> (\<Union>c \<in> set cs. {x. good_candidate P T mid c x})"
  by (induction cs arbitrary: st) (auto simp: step_good)

lemma fold_slow:
  "set (entries (cand_slow (foldl (process_chat P T) st cs)) mid)
     = set (entries (cand_slow st) mid) \<union> (\<Union>c \<in> set cs. {x. slow_candidate T mid c x})"
  by (induction cs arbitrary: st) (auto simp: step_slow)

lemma fold_values:
  "set (entries (first_reply_values_by_mgr (foldl (process_chat P T) st cs)) mid)
     = set (entries (first_reply_values_by_mgr st) mid)
       \<union> (\<Union>c \<in> set cs. {v. first_reply_sample T mid c v})"
  by (induction cs arbitrary: st) (auto simp: step_values)


lemma entries_init [simp]:
  "entries (cand_good init_state) mid = []"
  "entries (cand_slow init_state) mid = []"
  "entries (first_reply_values_by_mgr init_state) mid = []"
  by (simp_all add: entries_def init_state_def)

lemma loop_good:
  "set (entries (cand_good (digest_loop P T by_chat)) mid)
     = (\<Union>c \<in> set by_chat. {x. good_candidate P T mid (fst c, sort_chat (snd c)) x})"
  by (simp add: digest_loop_def fold_good)

lemma loop_slow:
  "set (entries (cand_slow (digest_loop P T by_chat)) mid)
     = (\<Union>c \<in> set by_chat. {x. slow_candidate T mid (fst c, sort_chat (snd c)) x})"
  by (simp add: digest_loop_def fold_slow)

lemma loop_values:
  "set (entries (first_reply_values_by_mgr (digest_loop P T by_chat)) mid)
     = (\<Union>c \<in> set by_chat. {v. first_reply_sample T mid (fst c, sort_chat (snd c)) v})"
  by (simp add: digest_loop_def fold_values)

lemma sorted_desc_top:
  fixes f :: "'a \<Rightarrow> int"
  assumes "y \<in> set xs" "x \<in> set (take n (sort_key (\<lambda>z. - f z) xs))"
  shows "y \<in> set (take n (sort_key (\<lambda>z. - f z) xs)) \<or> f y \<le> f x"
proof -
  let ?L = "sort_key (\<lambda>z. - f z) xs"
  have s: "sorted (map (\<lambda>z. - f z) (take n ?L) @ map (\<lambda>z. - f z) (drop n ?L))"
    using sorted_sort_key[of "\<lambda>z. - f z" xs] by (simp flip: map_append)
  have "y \<in> set (take n ?L) \<or> y \<in> set (drop n ?L)"
    using assms(1) by (metis Un_iff append_take_drop_id set_append set_sort)
  then show ?thesis
  proof
    assume "y \<in> set (drop n ?L)"
    then have "- f x \<le> - f y" using s assms(2) by (auto simp: sorted_append)
    then show ?thesis by simp
  qed simp
qed

lemma sorted_desc_take:
  fixes f :: "'a \<Rightarrow> int"
  shows "sorted_wrt (\<lambda>a b. f b \<le> f a) (take n (sort_key (\<lambda>z. - f z) xs))"
proof -
  have "sorted (map (\<lambda>z. - f z) (sort_key (\<lambda>z. - f z) xs))" by (rule sorted_sort_key)
  then have "sorted_wrt (\<lambda>a b. f b \<le> f a) (sort_key (\<lambda>z. - f z) xs)"
    by (simp add: sorted_wrt_map)
  then show ?thesis by (rule sorted_wrt_take)
qed

text \<open>
  C8 (as amended).  For every manager the good examples are at most three; each comes from
  a chat of that manager in which the manager responded, the last outbound text carries a
  next-step cue, the manager asked at least one question, and the stored first response
  time is positive and at most ten minutes (ten minutes exactly included); its score is
  ten minutes minus that time.  The examples are in descending order of score, and every
  good candidate of the manager that was not selected scores no higher than any selected
  one.
\<close>

theorem good_examples_ranked:
  assumes "pick_top (cand_good (digest_loop P T by_chat)) mid = Some items"
  shows "length items \<le> 3
       \<and> (\<forall>x \<in> set items. \<exists>c \<in> set by_chat. \<exists>fr.
             fst x = fst c
             \<and> fst (resolve_manager T (fst c) (sort_chat (snd c))) = mid
             \<and> responded (sort_chat (snd c))
             \<and> next_step P (sort_chat (snd c))
             \<and> 1 \<le> questions P (sort_chat (snd c))
             \<and> chat_first_reply_sec T (fst c) = Some fr \<and> 0 < fr \<and> fr \<le> 10 * 60
             \<and> score x = 10 * 60 - fr)
       \<and> sorted_wrt (\<lambda>a b. score b \<le> score a) items
       \<and> (\<forall>cands. cand_good (digest_loop P T by_chat) mid = Some cands \<longrightarrow>
             (\<forall>y \<in> set cands. y \<in> set items \<or> (\<forall>x \<in> set items. score y \<le> score x)))"
proof -
  obtain cands where c: "cand_good (digest_loop P T by_chat) mid = Some cands"
    and i: "items = take 3 (sort_key (\<lambda>x. - score x) cands)"
    using assms by (auto simp: pick_top_def split: option.splits)
  have e: "entries (cand_good (digest_loop P T by_chat)) mid = cands"
    using c by (simp add: entries_def)
  have l: "length items \<le> 3" using i by simp
  have g: "\<exists>c \<in> set by_chat. \<exists>fr.
             fst x = fst c
             \<and> fst (resolve_manager T (fst c) (sort_chat (snd c))) = mid
             \<and> responded (sort_chat (snd c))
             \<and> next_step P (sort_chat (snd c))
             \<and> 1 \<le> questions P (sort_chat (snd c))
             \<and> chat_first_reply_sec T (fst c) = Some fr \<and> 0 < fr \<and> fr \<le> 10 * 60
             \<and> score x = 10 * 60 - fr" if "x \<in> set items" for x
  proof -
    have "x \<in> set cands" using that i by (auto dest: in_set_takeD)
    then obtain c where "c \<in> set by_chat"
      and "good_candidate P T mid (fst c, sort_chat (snd c)) x"
      using loop_good[of P T by_chat mid] e by auto
    then show ?thesis
      by (auto simp: good_candidate_def Let_def score_def split: option.splits)
  qed
  have s: "sorted_wrt (\<lambda>a b. score b \<le> score a) items"
    unfolding i by (rule sorted_desc_take)
  have t: "y \<in> set items \<or> (\<forall>x \<in> set items. score y \<le> score x)"
    if "cand_good (digest_loop P T by_chat) mid = Some cands'" "y \<in> set cands'" for cands' y
  proof -
    have "y \<in> set cands" using that c by simp
    then show ?thesis using sorted_desc_top[of y cands _ 3 score] i by blast
  qed
  show ?thesis using l g s t by blast
qed


theorem good_examples_ranked_witness:
  "pick_top (cand_good (digest_loop ascii_digest_patterns demo_six_tables demo_six_chats)) ''m1''
     = Some [(''c4'', 570, [], ''ok?''), (''c3'', 540, [], ''ok?''), (''c6'', 300, [], ''ok?'')]
   \<and> length [(''c4'', 570 :: int, [] :: string, ''ok?''), (''c3'', 540, [], ''ok?''),
              (''c6'', 300, [], ''ok?'')] \<le> 3
   \<and> sorted_wrt (\<lambda>a b. score b \<le> score a)
         [(''c4'', 570, [], ''ok?''), (''c3'', 540, [], ''ok?''), (''c6'', 300, [], ''ok?'')]
   \<and> cand_good (digest_loop ascii_digest_patterns demo_six_tables demo_six_chats) ''m1''
       = Some [(''c3'', 540, [], ''ok?''), (''c4'', 570, [], ''ok?''),
               (''c5'', 0, [], ''ok?''), (''c6'', 300, [], ''ok?'')]
   \<and> ((''c5'', 0, [], ''ok?'')
          \<in> set [(''c4'', 570, [], ''ok?''), (''c3'', 540, [], ''ok?''), (''c6'', 300, [], ''ok?'')]
        \<or> list_all (\<lambda>x. score (''c5'', 0, [], ''ok?'') \<le> score x)
             [(''c4'', 570, [], ''ok?''), (''c3'', 540, [], ''ok?''), (''c6'', 300, [], ''ok?'')])"
proof -
  have h: "pick_top (cand_good (digest_loop ascii_digest_patterns demo_six_tables demo_six_chats))
             ''m1''
             = Some [(''c4'', 570, [], ''ok?''), (''c3'', 540, [], ''ok?''),
                     (''c6'', 300, [], ''ok?'')]"
    by code_simp
  have c: "cand_good (digest_loop ascii_digest_patterns demo_six_tables demo_six_chats) ''m1''
             = Some [(''c3'', 540, [], ''ok?''), (''c4'', 570, [], ''ok?''),
                     (''c5'', 0, [], ''ok?''), (''c6'', 300, [], ''ok?'')]"
    by code_simp
  note T = good_examples_ranked [OF h]
  note U = T [THEN conjunct2, THEN conjunct2, THEN conjunct2, rule_format, OF c,
              of "(''c5'', 0, [], ''ok?'')"]
  have t: "(''c5'', 0, [], ''ok?'')
          \<in> set [(''c4'', 570, [], ''ok?''), (''c3'', 540, [], ''ok?''), (''c6'', 300, [], ''ok?'')]
        \<or> list_all (\<lambda>x. score (''c5'', 0, [], ''ok?'') \<le> score x)
             [(''c4'', 570, [], ''ok?''), (''c3'', 540, [], ''ok?''), (''c6'', 300, [], ''ok?'')]"
    using U unfolding list_all_iff by simp
  show ?thesis
    by (intro conjI h c t T [THEN conjunct1] T [THEN conjunct2, THEN conjunct2, THEN conjunct1])
qed

text \<open>
  As the specification states it, the property fails at the boundary: a chat answered in
  exactly 600 seconds is selected as a good example, with score 0.
\<close>

theorem good_at_ten_minutes_counterexample:
  "chat_first_reply_sec (demo_tables 600) ''c1'' = Some 600
   \<and> \<not> ((600 :: int) < 10 * 60)
   \<and> pick_top (cand_good (digest_loop ascii_digest_patterns (demo_tables 600) demo_by_chat)) ''m1''
        = Some [(''c1'', 0, [], ''ok?'')]"
  by code_simp

lemma resolve_manager_fr:
  "resolve_manager (T\<lparr>chat_first_reply_sec := f\<rparr>) cid ms = resolve_manager T cid ms"
  by (simp add: resolve_manager_def Let_def split del: if_split cong del: if_weak_cong)

lemma process_chat_fr_irrelevant:
  assumes "chat_first_reply_sec T cid = Some 0"
  shows "process_chat P T st (cid, ms)
           = process_chat P (T\<lparr>chat_first_reply_sec := (chat_first_reply_sec T)(cid := None)\<rparr>)
               st (cid, ms)"
  using assms
  by (simp add: process_chat_def Let_def resolve_manager_fr split del: if_split
           cong del: if_weak_cong)

text \<open>
  C10.  A chat whose stored first response time is 0 adds nothing to the first-reply sample,
  to the slow candidates or to the good candidates, and the loop treats it exactly as a
  chat with no stored first response time.  Over a whole run, the first-reply sample holds
  only positive values and such a chat occurs in no slow or good candidate list.
\<close>

theorem zero_first_reply_excluded:
  assumes "chat_first_reply_sec T cid = Some 0"
  shows "first_reply_values_by_mgr (process_chat P T st (cid, ms)) = first_reply_values_by_mgr st
       \<and> cand_slow (process_chat P T st (cid, ms)) = cand_slow st
       \<and> cand_good (process_chat P T st (cid, ms)) = cand_good st
       \<and> process_chat P T st (cid, ms)
           = process_chat P (T\<lparr>chat_first_reply_sec := (chat_first_reply_sec T)(cid := None)\<rparr>)
               st (cid, ms)
       \<and> (\<forall>mid vs. first_reply_values_by_mgr (digest_loop P T by_chat) mid = Some vs \<longrightarrow>
             (\<forall>v \<in> set vs. 0 < v))
       \<and> (\<forall>mid items. cand_slow (digest_loop P T by_chat) mid = Some items \<longrightarrow>
             cid \<notin> fst ` set items)
       \<and> (\<forall>mid items. cand_good (digest_loop P T by_chat) mid = Some items \<longrightarrow>
             cid \<notin> fst ` set items)"
proof -
  have a: "first_reply_values_by_mgr (process_chat P T st (cid, ms)) = first_reply_values_by_mgr st"
    using assms by (simp add: process_chat_first_reply_values)
  have b: "cand_slow (process_chat P T st (cid, ms)) = cand_slow st"
    using assms by (simp add: process_chat_cand_slow)
  have c: "cand_good (process_chat P T st (cid, ms)) = cand_good st"
    using assms by (simp add: process_chat_cand_good)
  note d = process_chat_fr_irrelevant [OF assms]
  have e: "0 < v" if "first_reply_values_by_mgr (digest_loop P T by_chat) mid = Some vs" "v \<in> set vs"
    for mid vs v
  proof -
    have "entries (first_reply_values_by_mgr (digest_loop P T by_chat)) mid = vs"
      using that(1) by (simp add: entries_def)
    then show ?thesis
      using loop_values[of P T by_chat mid] that(2) by (auto simp: first_reply_sample_def)
  qed
  have f: "cid \<notin> fst ` set items" if "cand_slow (digest_loop P T by_chat) mid = Some items"
    for mid items
  proof -
    have "entries (cand_slow (digest_loop P T by_chat)) mid = items"
      using that by (simp add: entries_def)
    then show ?thesis
      using loop_slow[of P T by_chat mid] assms
      by (auto simp: slow_candidate_def Let_def split: option.splits)
  qed
  have g: "cid \<notin> fst ` set items" if "cand_good (digest_loop P T by_chat) mid = Some items"
    for mid items
  proof -
    have "entries (cand_good (digest_loop P T by_chat)) mid = items"
      using that by (simp add: entries_def)
    then show ?thesis
      using loop_good[of P T by_chat mid] assms
      by (auto simp: good_candidate_def Let_def split: option.splits)
  qed
  show ?thesis using a b c d e f g by blast
qed

theorem zero_first_reply_excluded_witness:
  "chat_first_reply_sec demo_six_tables ''c1'' = Some 0
   \<and> cand_good (process_chat ascii_digest_patterns demo_six_tables init_state
                   (''c1'', demo_msgs_of ''c1''))
        = cand_good init_state
   \<and> first_reply_values_by_mgr
         (digest_loop ascii_digest_patterns demo_six_tables demo_six_chats) ''m1''
        = Some [1900, 60, 30, 600, 300]
   \<and> cand_slow (digest_loop ascii_digest_patterns demo_six_tables demo_six_chats) ''m1''
        = Some [(''c2'', 1900, [], ''ok?'')]
   \<and> ''c1'' \<notin> fst ` set [(''c2'', 1900 :: int, [] :: string, ''ok?'')]
   \<and> cand_good (digest_loop ascii_digest_patterns demo_six_tables demo_six_chats) ''m1''
        = Some [(''c3'', 540, [], ''ok?''), (''c4'', 570, [], ''ok?''),
                (''c5'', 0, [], ''ok?''), (''c6'', 300, [], ''ok?'')]
   \<and> ''c1'' \<notin> fst ` set [(''c3'', 540 :: int, [] :: string, ''ok?''), (''c4'', 570, [], ''ok?''),
                             (''c5'', 0, [], ''ok?''), (''c6'', 300, [], ''ok?'')]"
proof -
  have h: "chat_first_reply_sec demo_six_tables ''c1'' = Some 0"
    by (simp add: demo_six_tables_def)
  have v: "first_reply_values_by_mgr
             (digest_loop ascii_digest_patterns demo_six_tables demo_six_chats) ''m1''
             = Some [1900, 60, 30, 600, 300]"
    by code_simp
  have sl: "cand_slow (digest_loop ascii_digest_patterns demo_six_tables demo_six_chats) ''m1''
              = Some [(''c2'', 1900, [], ''ok?'')]"
    by code_simp
  have g: "cand_good (digest_loop ascii_digest_patterns demo_six_tables demo_six_chats) ''m1''
             = Some [(''c3'', 540, [], ''ok?''), (''c4'', 570, [], ''ok?''),
                     (''c5'', 0, [], ''ok?''), (''c6'', 300, [], ''ok?'')]"
    by code_simp
  note T = zero_first_reply_excluded
             [OF h, of ascii_digest_patterns init_state "demo_msgs_of ''c1''" demo_six_chats]
  note S = T [THEN conjunct2, THEN conjunct2, THEN conjunct2, THEN conjunct2, THEN conjunct2]
  show ?thesis
    by (intro conjI h v sl g T [THEN conjunct2, THEN conjunct2, THEN conjunct1]
          S [THEN conjunct1, rule_format, OF sl] S [THEN conjunct2, rule_format, OF g])
qed

lemma process_chat_cand_no_reply:
  "cand_no_reply (process_chat P T st c) =
     (if (case chat_no_reply T (fst c) of None \<Rightarrow> False | Some v \<Rightarrow> v \<noteq> 0)
      then setdefault_append (cand_no_reply st) (fst (resolve_manager T (fst c) (snd c)))
             (fst c, 100, fst (chat_snippet (snd c)), snd (chat_snippet (snd c)))
      else cand_no_reply st)"
  by (simp add: process_chat_def Let_def)

lemma process_chat_cand_no_next:
  "cand_no_next (process_chat P T st c) =
     (if high_intent P (snd c) \<and> responded (snd c) \<and> \<not> next_step P (snd c)
      then setdefault_append (cand_no_next st) (fst (resolve_manager T (fst c) (snd c)))
             (fst c, 50, fst (chat_snippet (snd c)), snd (chat_snippet (snd c)))
      else cand_no_next st)"
  by (simp add: process_chat_def Let_def)

lemma step_snippets:
  "set (entries (cand_no_reply (process_chat P T st c)) mid)
     \<subseteq> set (entries (cand_no_reply st) mid) \<union> {x. snippets_of c x}"
  "set (entries (cand_slow (process_chat P T st c)) mid)
     \<subseteq> set (entries (cand_slow st) mid) \<union> {x. snippets_of c x}"
  "set (entries (cand_no_next (process_chat P T st c)) mid)
     \<subseteq> set (entries (cand_no_next st) mid) \<union> {x. snippets_of c x}"
  "set (entries (cand_good (process_chat P T st c)) mid)
     \<subseteq> set (entries (cand_good st) mid) \<union> {x. snippets_of c x}"
  by (auto simp: process_chat_cand_no_reply process_chat_cand_slow process_chat_cand_no_next
        process_chat_cand_good entries_setdefault_append snippets_of_def split: if_splits)

lemma fold_snippets:
  "set (entries (cand_no_reply (foldl (process_chat P T) st cs)) mid)
     \<subseteq> set (entries (cand_no_reply st) mid) \<union> (\<Union>c \<in> set cs. {x. snippets_of c x})"
  "set (entries (cand_slow (foldl (process_chat P T) st cs)) mid)
     \<subseteq> set (entries (cand_slow st) mid) \<union> (\<Union>c \<in> set cs. {x. snippets_of c x})"
  "set (entries (cand_no_next (foldl (process_chat P T) st cs)) mid)
     \<subseteq> set (entries (cand_no_next st) mid) \<union> (\<Union>c \<in> set cs. {x. snippets_of c x})"
  "set (entries (cand_good (foldl (process_chat P T) st cs)) mid)
     \<subseteq> set (entries (cand_good st) mid) \<union> (\<Union>c \<in> set cs. {x. snippets_of c x})"
proof (induction cs arbitrary: st)
  case Nil
  { case 1 show ?case by simp }
  { case 2 show ?case by simp }
  { case 3 show ?case by simp }
  { case 4 show ?case by simp }
next
  case (Cons c cs)
  { case 1 show ?case using Cons.IH(1)[of "process_chat P T st c"] step_snippets(1)[of P T st c mid]
      by auto }
  { case 2 show ?case using Cons.IH(2)[of "process_chat P T st c"] step_snippets(2)[of P T st c mid]
      by auto }
  { case 3 show ?case using Cons.IH(3)[of "process_chat P T st c"] step_snippets(3)[of P T st c mid]
      by auto }
  { case 4 show ?case using Cons.IH(4)[of "process_chat P T st c"] step_snippets(4)[of P T st c mid]
      by auto }
qed


lemma entries_init_more [simp]:
  "entries (cand_no_reply init_state) mid = []"
  "entries (cand_no_next init_state) mid = []"
  by (simp_all add: entries_def init_state_def)

lemma loop_snippets:
  assumes "x \<in> set (entries (cand_no_reply (digest_loop P T by_chat)) mid)
           \<union> set (entries (cand_slow (digest_loop P T by_chat)) mid)
           \<union> set (entries (cand_no_next (digest_loop P T by_chat)) mid)
           \<union> set (entries (cand_good (digest_loop P T by_chat)) mid)"
  shows "\<exists>c \<in> set by_chat. snd (snd x) = chat_snippet (sort_chat (snd c))"
proof -
  let ?cs = "map (\<lambda>c. (fst c, sort_chat (snd c))) by_chat"
  have "x \<in> (\<Union>c \<in> set ?cs. {x. snippets_of c x})"
    using assms fold_snippets[of P T init_state ?cs mid]
    unfolding digest_loop_def by (simp only: entries_init entries_init_more) auto
  then show ?thesis by (auto simp: snippets_of_def)
qed

lemma entries_pick_top:
  "set (entries (pick_top d) mid) \<subseteq> set (entries d mid)"
  by (auto simp: entries_def pick_top_def split: option.splits dest: in_set_takeD)

lemma redact_text_length: "length (redact_text s max_len) \<le> max_len"
  by (simp add: redact_text_def Let_def)

lemma snippet_loop_shape:
  assumes "inb = [] \<or> (\<exists>m \<in> S. inb = redact_text (msg_text m) 220)"
    and "outb = [] \<or> (\<exists>m \<in> S. outb = redact_text (msg_text m) 220)"
    and "set ms \<subseteq> S"
  shows "(fst (snippet_loop inb outb ms) = []
            \<or> (\<exists>m \<in> S. fst (snippet_loop inb outb ms) = redact_text (msg_text m) 220))
       \<and> (snd (snippet_loop inb outb ms) = []
            \<or> (\<exists>m \<in> S. snd (snippet_loop inb outb ms) = redact_text (msg_text m) 220))"
  using assms
proof (induction ms arbitrary: inb outb)
  case Nil
  then show ?case by simp
next
  case (Cons m ms)
  let ?inb = "if inb = [] \<and> is_customer_msg m \<and> is_textish m \<and> msg_text m \<noteq> []
              then redact_text (msg_text m) 220 else inb"
  let ?outb = "if outb = [] \<and> is_manager_msg m \<and> is_textish m \<and> msg_text m \<noteq> []
               then redact_text (msg_text m) 220 else outb"
  have mS: "m \<in> S" and sub: "set ms \<subseteq> S" using Cons.prems(3) by auto
  have i: "?inb = [] \<or> (\<exists>m \<in> S. ?inb = redact_text (msg_text m) 220)"
    using Cons.prems(1) mS by auto
  have j: "?outb = [] \<or> (\<exists>m \<in> S. ?outb = redact_text (msg_text m) 220)"
    using Cons.prems(2) mS by auto
  show ?case
  proof (cases "?inb \<noteq> [] \<and> ?outb \<noteq> []")
    case True
    then have "snippet_loop inb outb (m # ms) = (?inb, ?outb)"
      by (simp only: snippet_loop.simps Let_def simp_thms if_True)
    then show ?thesis using i j by simp
  next
    case False
    then have "snippet_loop inb outb (m # ms) = snippet_loop ?inb ?outb ms"
      by (simp only: snippet_loop.simps Let_def simp_thms if_False)
    then show ?thesis using Cons.IH[OF i j sub] by simp
  qed
qed





subsection \<open>Baseline and deltas\<close>

lemma best_forI:
  assumes "bl = None \<Longrightarrow> bt = None"
    and "\<And>r ts. bl = None \<Longrightarrow> r \<in> set rows \<Longrightarrow> \<not> qualifies cutoff mid r ts"
    and "\<And>b. bl = Some b \<Longrightarrow> b \<in> set rows"
    and "\<And>b. bl = Some b \<Longrightarrow>
           \<exists>ts. bt = Some ts \<and> qualifies cutoff mid b ts
                \<and> (\<forall>r \<in> set rows. \<forall>ts'. qualifies cutoff mid r ts' \<longrightarrow> ts' \<le> ts)"
  shows "best_for cutoff rows mid bt bl"
  unfolding best_for_def using assms by blast

lemma best_for_None:
  assumes "best_for cutoff rows mid bt None"
  shows "bt = None" and "r \<in> set rows \<Longrightarrow> \<not> qualifies cutoff mid r ts"
  using assms unfolding best_for_def by blast+

lemma best_for_Some:
  assumes "best_for cutoff rows mid bt (Some b)"
  shows "b \<in> set rows"
    and "\<exists>ts. bt = Some ts \<and> qualifies cutoff mid b ts
              \<and> (\<forall>r \<in> set rows. \<forall>ts'. qualifies cutoff mid r ts' \<longrightarrow> ts' \<le> ts)"
  using assms unfolding best_for_def by blast+

lemma qualifies_unique:
  "qualifies cutoff mid r ts \<Longrightarrow> qualifies cutoff mid r ts' \<Longrightarrow> ts' = ts"
  by (simp add: qualifies_def)

lemma best_for_skip:
  assumes "best_for cutoff rows mid bt bl" "\<forall>ts. \<not> qualifies cutoff mid r ts"
  shows "best_for cutoff (rows @ [r]) mid bt bl"
proof (cases bl)
  case None
  show ?thesis unfolding None
  proof (rule best_forI)
    show "bt = None" using best_for_None(1) assms(1) None by blast
    fix r' ts assume "r' \<in> set (rows @ [r])"
    then have "r' \<in> set rows \<or> r' = r" by auto
    then show "\<not> qualifies cutoff mid r' ts"
      using best_for_None(2)[OF assms(1)[unfolded None]] assms(2) by blast
  qed simp_all
next
  case (Some b)
  note s = best_for_Some[OF assms(1)[unfolded Some]]
  show ?thesis unfolding Some
  proof (rule best_forI)
    fix b' assume "Some b = Some b'"
    then have e: "b' = b" by simp
    show "b' \<in> set (rows @ [r])" using s(1) e by simp
    obtain ts where t: "bt = Some ts" "qualifies cutoff mid b ts"
      "\<forall>r \<in> set rows. \<forall>ts'. qualifies cutoff mid r ts' \<longrightarrow> ts' \<le> ts"
      using s(2) by blast
    have "\<forall>r' \<in> set (rows @ [r]). \<forall>ts'. qualifies cutoff mid r' ts' \<longrightarrow> ts' \<le> ts"
      using t(3) assms(2) by auto
    then show "\<exists>ts. bt = Some ts \<and> qualifies cutoff mid b' ts
              \<and> (\<forall>r \<in> set (rows @ [r]). \<forall>ts'. qualifies cutoff mid r ts' \<longrightarrow> ts' \<le> ts)"
      using t(1,2) e by blast
  qed simp_all
qed

lemma best_for_take:
  assumes "best_for cutoff rows mid bt bl" "qualifies cutoff mid r ts"
    and "case bt of None \<Rightarrow> True | Some b \<Rightarrow> ts > b"
  shows "best_for cutoff (rows @ [r]) mid (Some ts) (Some r)"
proof (rule best_forI)
  fix b assume "Some r = Some b"
  then have e: "b = r" by simp
  show "b \<in> set (rows @ [r])" using e by simp
  have old: "ts' \<le> ts" if "r' \<in> set rows" "qualifies cutoff mid r' ts'" for r' ts'
  proof (cases bl)
    case None
    then show ?thesis using best_for_None(2) assms(1) that by blast
  next
    case (Some b0)
    then obtain t0 where t0: "bt = Some t0"
      "\<forall>r \<in> set rows. \<forall>ts'. qualifies cutoff mid r ts' \<longrightarrow> ts' \<le> t0"
      using best_for_Some(2) assms(1) by blast
    have "ts' \<le> t0" using t0(2) that by blast
    moreover have "t0 < ts" using assms(3) t0(1) by simp
    ultimately show ?thesis by simp
  qed
  have "\<forall>r' \<in> set (rows @ [r]). \<forall>ts'. qualifies cutoff mid r' ts' \<longrightarrow> ts' \<le> ts"
  proof (intro ballI allI impI)
    fix r' ts' assume "r' \<in> set (rows @ [r])" and q: "qualifies cutoff mid r' ts'"
    then have "r' \<in> set rows \<or> r' = r" by auto
    then show "ts' \<le> ts"
    proof
      assume "r' \<in> set rows" then show ?thesis using old q by blast
    next
      assume "r' = r" then show ?thesis using qualifies_unique[OF assms(2)] q by simp
    qed
  qed
  then show "\<exists>ts'. Some ts = Some ts' \<and> qualifies cutoff mid b ts'
              \<and> (\<forall>r \<in> set (rows @ [r]). \<forall>ts''. qualifies cutoff mid r ts'' \<longrightarrow> ts'' \<le> ts')"
    using assms(2) e by blast
qed simp_all

lemma best_for_keep:
  assumes "best_for cutoff rows mid bt bl" "qualifies cutoff mid r ts"
    and "bt = Some b" "\<not> ts > b"
  shows "best_for cutoff (rows @ [r]) mid bt bl"
proof (cases bl)
  case None
  then show ?thesis using best_for_None(1) assms(1,3) by fastforce
next
  case (Some b0)
  note s = best_for_Some[OF assms(1)[unfolded Some]]
  obtain t0 where t0: "bt = Some t0" "qualifies cutoff mid b0 t0"
    "\<forall>r \<in> set rows. \<forall>ts'. qualifies cutoff mid r ts' \<longrightarrow> ts' \<le> t0"
    using s(2) by blast
  have tb: "t0 = b" using t0(1) assms(3) by simp
  show ?thesis unfolding Some
  proof (rule best_forI)
    fix b' assume "Some b0 = Some b'"
    then have e: "b' = b0" by simp
    show "b' \<in> set (rows @ [r])" using s(1) e by simp
    have "\<forall>r' \<in> set (rows @ [r]). \<forall>ts'. qualifies cutoff mid r' ts' \<longrightarrow> ts' \<le> t0"
    proof (intro ballI allI impI)
      fix r' ts' assume "r' \<in> set (rows @ [r])" and q: "qualifies cutoff mid r' ts'"
      then have "r' \<in> set rows \<or> r' = r" by auto
      then show "ts' \<le> t0"
      proof
        assume "r' \<in> set rows" then show ?thesis using t0(3) q by blast
      next
        assume "r' = r"
        then have "ts' = ts" using qualifies_unique[OF assms(2)] q by simp
        then show ?thesis using assms(4) tb by simp
      qed
    qed
    then show "\<exists>ts. bt = Some ts \<and> qualifies cutoff mid b' ts
              \<and> (\<forall>r \<in> set (rows @ [r]). \<forall>ts'. qualifies cutoff mid r ts' \<longrightarrow> ts' \<le> ts)"
      using t0(1,2) e by blast
  qed simp_all
qed

lemma baseline_inv_step:
  assumes "baseline_inv cutoff rows acc"
  shows "baseline_inv cutoff (rows @ [r]) (baseline_step cutoff acc r)"
  unfolding baseline_inv_def
proof
  fix mid
  note a = assms[unfolded baseline_inv_def, rule_format, of mid]
  show "best_for cutoff (rows @ [r]) mid (fst (baseline_step cutoff acc r) mid)
          (snd (baseline_step cutoff acc r) mid)"
  proof (cases "\<exists>ts. qualifies cutoff mid r ts")
    case False
    then have nq: "\<forall>ts. \<not> qualifies cutoff mid r ts" by blast
    have "fst (baseline_step cutoff acc r) mid = fst acc mid
          \<and> snd (baseline_step cutoff acc r) mid = snd acc mid"
    proof (cases "h_run_ts r")
      case None
      then show ?thesis by (simp add: baseline_step_def Let_def)
    next
      case (Some t)
      then have "cutoff < t \<or> h_manager_id r \<noteq> mid"
        using nq by (auto simp: qualifies_def)
      then show ?thesis using Some
        by (auto simp: baseline_step_def Let_def)
    qed
    then show ?thesis using best_for_skip[OF a nq] by simp
  next
    case True
    then obtain ts where q: "qualifies cutoff mid r ts" by blast
    then have r: "h_run_ts r = Some ts" "\<not> ts > cutoff" "h_manager_id r = mid"
      by (auto simp: qualifies_def)
    show ?thesis
    proof (cases "case fst acc mid of None \<Rightarrow> True | Some b \<Rightarrow> ts > b")
      case True
      then have "baseline_step cutoff acc r = ((fst acc)(mid \<mapsto> ts), (snd acc)(mid \<mapsto> r))"
        using r by (simp add: baseline_step_def Let_def)
      then show ?thesis using best_for_take[OF a q True] by simp
    next
      case False
      then obtain b where b: "fst acc mid = Some b" "\<not> ts > b" by (auto split: option.splits)
      have "baseline_step cutoff acc r = acc"
        using r b by (simp add: baseline_step_def Let_def)
      then show ?thesis using best_for_keep[OF a q b] by simp
    qed
  qed
qed

lemma baseline_inv_foldl:
  "baseline_inv cutoff rows (foldl (baseline_step cutoff) (Map.empty, Map.empty) rows)"
proof (induction rows rule: rev_induct)
  case Nil
  show ?case by (simp add: baseline_inv_def best_for_def)
next
  case (snoc r rows)
  then show ?case using baseline_inv_step[of cutoff rows _ r] by simp
qed

lemma select_baseline_best:
  "best_for (now - 6 * US_PER_DAY) rows mid
     (fst (foldl (baseline_step (now - 6 * US_PER_DAY)) (Map.empty, Map.empty) rows) mid)
     (select_baseline now rows mid)"
  using baseline_inv_foldl[of "now - 6 * US_PER_DAY" rows]
  by (simp add: baseline_inv_def select_baseline_def Let_def)


lemma select_baseline_Some:
  assumes "select_baseline now rows mid = Some b"
  shows "b \<in> set rows \<and> h_manager_id b = mid
       \<and> (\<exists>ts. h_run_ts b = Some ts \<and> ts \<le> now - 6 * US_PER_DAY
              \<and> (\<forall>r \<in> set rows. \<forall>ts'.
                    h_manager_id r = mid \<and> h_run_ts r = Some ts' \<and> ts' \<le> now - 6 * US_PER_DAY
                    \<longrightarrow> ts' \<le> ts))"
  using best_for_Some[OF select_baseline_best[of now rows mid, unfolded assms]]
  unfolding qualifies_def by blast

lemma select_baseline_None:
  "select_baseline now rows mid = None \<longleftrightarrow>
     (\<forall>r \<in> set rows. \<forall>ts.
        \<not> (h_manager_id r = mid \<and> h_run_ts r = Some ts \<and> ts \<le> now - 6 * US_PER_DAY))"
proof
  assume n: "select_baseline now rows mid = None"
  show "\<forall>r \<in> set rows. \<forall>ts.
        \<not> (h_manager_id r = mid \<and> h_run_ts r = Some ts \<and> ts \<le> now - 6 * US_PER_DAY)"
    using best_for_None(2)[OF select_baseline_best[of now rows mid, unfolded n]]
    unfolding qualifies_def by blast
next
  assume a: "\<forall>r \<in> set rows. \<forall>ts.
        \<not> (h_manager_id r = mid \<and> h_run_ts r = Some ts \<and> ts \<le> now - 6 * US_PER_DAY)"
  show "select_baseline now rows mid = None"
  proof (cases "select_baseline now rows mid")
    case (Some b)
    then show ?thesis using select_baseline_Some[OF Some] a by blast
  qed simp
qed

lemma baseline_scenario:
  assumes "set srows = {r10, r7, r3, r1}"
    and "h_manager_id r10 = k" "h_manager_id r7 = k" "h_manager_id r3 = k" "h_manager_id r1 = k"
    and "h_run_ts r10 = Some (T - 10 * US_PER_DAY)" "h_run_ts r7 = Some (T - 7 * US_PER_DAY)"
    and "h_run_ts r3 = Some (T - 3 * US_PER_DAY)" "h_run_ts r1 = Some (T - 1 * US_PER_DAY)"
  shows "select_baseline T srows k = Some r7"
proof -
  have pos: "0 < US_PER_DAY" by (simp add: US_PER_DAY_def)
  have q7: "r7 \<in> set srows" "T - 7 * US_PER_DAY \<le> T - 6 * US_PER_DAY"
    using assms(1) pos by auto
  have "select_baseline T srows k \<noteq> None"
    using select_baseline_None[of T srows k] q7 assms(3,7) by blast
  then obtain b where b: "select_baseline T srows k = Some b" by blast
  obtain ts where t: "b \<in> set srows" "h_run_ts b = Some ts" "ts \<le> T - 6 * US_PER_DAY"
    "\<forall>r \<in> set srows. \<forall>ts'.
        h_manager_id r = k \<and> h_run_ts r = Some ts' \<and> ts' \<le> T - 6 * US_PER_DAY \<longrightarrow> ts' \<le> ts"
    using select_baseline_Some[OF b] by blast
  have ge: "T - 7 * US_PER_DAY \<le> ts" using t(4) q7 assms(3,7) by blast
  have "b = r10 \<or> b = r7 \<or> b = r3 \<or> b = r1" using t(1) assms(1) by auto
  then have "b = r7"
  proof (elim disjE)
    assume "b = r10" then show ?thesis using t(2) assms(6) ge pos by simp
  next
    assume "b = r3" then show ?thesis using t(2,3) assms(8) pos by simp
  next
    assume "b = r1" then show ?thesis using t(2,3) assms(9) pos by simp
  qed
  then show ?thesis using b by simp
qed

lemma delta_fields_empty:
  assumes "baseline (h_manager_id cur) = None"
  shows "\<forall>kv \<in> set (delta_fields round_diff baseline cur). snd kv = None"
  using assms by (auto simp: delta_fields_def Let_def split: option.splits)

lemma delta_fields_keys:
  "map fst (delta_fields round_diff baseline cur) = map (\<lambda>k. ''delta_'' @ k) delta_keys"
  by (simp add: delta_fields_def Let_def comp_def)

text \<open>
  C2.  For every manager key the baseline is a history row of that key whose timestamp is
  the greatest among the rows of the key with a timestamp at or before \<open>now\<close> minus six days;
  there is no baseline exactly when no row of the key satisfies the cutoff, and then every
  \<^verbatim>\<open>delta_\<close> field of the key's row is empty.  With snapshots at \<open>T\<close> minus 10, 7, 3 and 1
  days, in any order, and \<open>now = T\<close>, the baseline is the snapshot at \<open>T\<close> minus 7 days.
\<close>

theorem baseline_is_latest_before_cutoff:
  "(select_baseline now rows mid = Some b \<longrightarrow>
      b \<in> set rows \<and> h_manager_id b = mid
      \<and> (\<exists>ts. h_run_ts b = Some ts \<and> ts \<le> now - 6 * US_PER_DAY
             \<and> (\<forall>r \<in> set rows. \<forall>ts'.
                   h_manager_id r = mid \<and> h_run_ts r = Some ts' \<and> ts' \<le> now - 6 * US_PER_DAY
                   \<longrightarrow> ts' \<le> ts)))
   \<and> (select_baseline now rows mid = None \<longleftrightarrow>
        (\<forall>r \<in> set rows. \<forall>ts.
           \<not> (h_manager_id r = mid \<and> h_run_ts r = Some ts \<and> ts \<le> now - 6 * US_PER_DAY)))
   \<and> (set srows = {r10, r7, r3, r1}
        \<and> h_manager_id r10 = k \<and> h_manager_id r7 = k \<and> h_manager_id r3 = k \<and> h_manager_id r1 = k
        \<and> h_run_ts r10 = Some (T - 10 * US_PER_DAY) \<and> h_run_ts r7 = Some (T - 7 * US_PER_DAY)
        \<and> h_run_ts r3 = Some (T - 3 * US_PER_DAY) \<and> h_run_ts r1 = Some (T - 1 * US_PER_DAY)
        \<longrightarrow> select_baseline T srows k = Some r7)
   \<and> (select_baseline now rows (h_manager_id cur) = None \<longrightarrow>
        map fst (delta_fields round_diff (select_baseline now rows) cur)
          = map (\<lambda>k. ''delta_'' @ k) delta_keys
        \<and> (\<forall>kv \<in> set (delta_fields round_diff (select_baseline now rows) cur). snd kv = None))"
proof (intro conjI)
  show "select_baseline now rows mid = Some b \<longrightarrow>
      b \<in> set rows \<and> h_manager_id b = mid
      \<and> (\<exists>ts. h_run_ts b = Some ts \<and> ts \<le> now - 6 * US_PER_DAY
             \<and> (\<forall>r \<in> set rows. \<forall>ts'.
                   h_manager_id r = mid \<and> h_run_ts r = Some ts' \<and> ts' \<le> now - 6 * US_PER_DAY
                   \<longrightarrow> ts' \<le> ts))"
    by (rule impI) (rule select_baseline_Some)
  show "select_baseline now rows mid = None \<longleftrightarrow>
        (\<forall>r \<in> set rows. \<forall>ts.
           \<not> (h_manager_id r = mid \<and> h_run_ts r = Some ts \<and> ts \<le> now - 6 * US_PER_DAY))"
    by (rule select_baseline_None)
  show "set srows = {r10, r7, r3, r1}
        \<and> h_manager_id r10 = k \<and> h_manager_id r7 = k \<and> h_manager_id r3 = k \<and> h_manager_id r1 = k
        \<and> h_run_ts r10 = Some (T - 10 * US_PER_DAY) \<and> h_run_ts r7 = Some (T - 7 * US_PER_DAY)
        \<and> h_run_ts r3 = Some (T - 3 * US_PER_DAY) \<and> h_run_ts r1 = Some (T - 1 * US_PER_DAY)
        \<longrightarrow> select_baseline T srows k = Some r7"
    using baseline_scenario[of srows r10 r7 r3 r1 k T] by blast
  show "select_baseline now rows (h_manager_id cur) = None \<longrightarrow>
        map fst (delta_fields round_diff (select_baseline now rows) cur)
          = map (\<lambda>k. ''delta_'' @ k) delta_keys
        \<and> (\<forall>kv \<in> set (delta_fields round_diff (select_baseline now rows) cur). snd kv = None)"
    using delta_fields_empty[of "select_baseline now rows" cur round_diff]
          delta_fields_keys[of round_diff "select_baseline now rows" cur]
    by blast
qed

theorem baseline_is_latest_before_cutoff_witness:
  "select_baseline 1728000000000 demo_history ''m1'' = Some (demo_row 1123200000000 2)
   \<and> demo_row 1123200000000 2 \<in> set demo_history
   \<and> select_baseline 1728000000000 [] (h_manager_id (demo_row 1728000000000 5)) = None
   \<and> list_all (\<lambda>kv. snd kv = None)
        (delta_fields (\<lambda>c b. c - b) (select_baseline 1728000000000 [])
           (demo_row 1728000000000 5))"
proof -
  note S = baseline_is_latest_before_cutoff
             [where srows = demo_history and T = 1728000000000 and k = "''m1''"
                and ?r10.0 = "demo_row 864000000000 1" and ?r7.0 = "demo_row 1123200000000 2"
                and ?r3.0 = "demo_row 1468800000000 3" and ?r1.0 = "demo_row 1641600000000 4",
              THEN conjunct2, THEN conjunct2, THEN conjunct1]
  have h: "set demo_history = {demo_row 864000000000 1, demo_row 1123200000000 2,
                               demo_row 1468800000000 3, demo_row 1641600000000 4}
        \<and> h_manager_id (demo_row 864000000000 1) = ''m1''
        \<and> h_manager_id (demo_row 1123200000000 2) = ''m1''
        \<and> h_manager_id (demo_row 1468800000000 3) = ''m1''
        \<and> h_manager_id (demo_row 1641600000000 4) = ''m1''
        \<and> h_run_ts (demo_row 864000000000 1) = Some (1728000000000 - 10 * US_PER_DAY)
        \<and> h_run_ts (demo_row 1123200000000 2) = Some (1728000000000 - 7 * US_PER_DAY)
        \<and> h_run_ts (demo_row 1468800000000 3) = Some (1728000000000 - 3 * US_PER_DAY)
        \<and> h_run_ts (demo_row 1641600000000 4) = Some (1728000000000 - 1 * US_PER_DAY)"
    by (simp add: demo_history_def demo_row_def US_PER_DAY_def)
  have a: "select_baseline 1728000000000 demo_history ''m1'' = Some (demo_row 1123200000000 2)"
    using S h by (rule mp)
  note G = baseline_is_latest_before_cutoff
             [where now = 1728000000000 and rows = demo_history and mid = "''m1''"
                and b = "demo_row 1123200000000 2", THEN conjunct1, rule_format, OF a]
  have b: "demo_row 1123200000000 2 \<in> set demo_history" using G by blast
  have n: "select_baseline 1728000000000 [] (h_manager_id (demo_row 1728000000000 5)) = None"
    by (simp add: select_baseline_def)
  note D = baseline_is_latest_before_cutoff
             [where now = 1728000000000 and rows = "[]" and cur = "demo_row 1728000000000 5"
                and round_diff = "\<lambda>c b. c - b",
              THEN conjunct2, THEN conjunct2, THEN conjunct2, rule_format, OF n]
  have d: "list_all (\<lambda>kv. snd kv = None)
             (delta_fields (\<lambda>c b. c - b) (select_baseline 1728000000000 [])
                (demo_row 1728000000000 5))"
    using D [THEN conjunct2] by (simp add: list_all_iff)
  show ?thesis by (intro conjI a b n d)
qed

end
